theory Spec2Isabelle
  imports Complex_Main "HOL-Library.Multiset"
begin

section \<open>The laughing-owl example: data model\<close>

text \<open>
  The example application (\<^verbatim>\<open>src/examples/laughing-owl/index.ts\<close>) wires DOM events to a
  mutable multigraph and installs two reducers that derive display attributes from an
  ambient interaction state. Attribute bags are untyped in the source; here every attribute
  the code reads or writes is a field, and an attribute absent from the bag (JavaScript
  \<^verbatim>\<open>undefined\<close>) is \<open>None\<close>. The flags \<^verbatim>\<open>hidden\<close>, \<^verbatim>\<open>isExtraData\<close>, \<^verbatim>\<open>isMalop\<close> and \<^verbatim>\<open>attr\<close>
  are booleans when present, as the data model of the specification types them.
\<close>

record node_attrs =
  n_x :: "real option"
  n_y :: "real option"
  n_size :: "real option"
  n_color :: "string option"
  n_label :: "string option"
  n_hidden :: "bool option"
  n_isExtraData :: "bool option"
  n_isMalop :: "bool option"
  n_neighbors :: "string list option"

record edge_attrs =
  e_label :: "string option"
  e_attr :: "bool option"
  e_color :: "string option"
  e_size :: "real option"

text \<open>
  Edge keys are strings in the graph library. A key is either given by an imported
  document or produced by the graph's own generator from a counter; the two kinds are
  kept apart by the constructor.
\<close>

datatype edge_key = Named string | Generated nat

record edge =
  key :: edge_key
  source :: string
  target :: string
  undirected :: bool
  attributes :: edge_attrs

record graph =
  nodes :: "(string \<times> node_attrs) list"
  edges :: "edge list"
  edgeId :: nat

datatype error = NotFoundGraphError | UsageGraphError | TypeError

text \<open>The \<^verbatim>\<open>State\<close> interface of the source (lines 94--105).\<close>

record State =
  hoveredNode :: "string option"
  hoveredNodeLabel :: "string option"
  hoveredNodeIsMalop :: "bool option"
  selectedNode :: "string option"
  suggestions :: "string set option"
  hoveredNeighbors :: "string set option"

text \<open>
  \<^verbatim>\<open>Partial<NodeDisplayData>\<close> and \<^verbatim>\<open>Partial<EdgeDisplayData>\<close> of \<^verbatim>\<open>sigma/types\<close>: every
  field may be missing.
\<close>

record node_display =
  nd_x :: "real option"
  nd_y :: "real option"
  nd_size :: "real option"
  nd_color :: "string option"
  nd_label :: "string option"
  nd_hidden :: "bool option"
  nd_highlighted :: "bool option"
  nd_forceLabel :: "bool option"
  nd_zIndex :: "int option"
  nd_type :: "string option"

record edge_display =
  ed_size :: "real option"
  ed_color :: "string option"
  ed_label :: "string option"
  ed_hidden :: "bool option"
  ed_forceLabel :: "bool option"
  ed_zIndex :: "int option"
  ed_type :: "string option"

subsection \<open>JavaScript truthiness and coercion\<close>

text \<open>\<^verbatim>\<open>if (b)\<close> on an optional boolean: \<^verbatim>\<open>undefined\<close> and \<^verbatim>\<open>false\<close> are falsy.\<close>

fun truthy_bool :: "bool option \<Rightarrow> bool" where
  "truthy_bool (Some b) = b"
| "truthy_bool None = False"

text \<open>\<^verbatim>\<open>if (s)\<close> on an optional string: \<^verbatim>\<open>undefined\<close> and the empty string are falsy.\<close>

fun truthy_str :: "string option \<Rightarrow> bool" where
  "truthy_str (Some s) = (s \<noteq> [])"
| "truthy_str None = False"

text \<open>
  \<^verbatim>\<open>v == true\<close> and \<^verbatim>\<open>v == false\<close> on an optional boolean: \<^verbatim>\<open>undefined\<close> is loosely
  equal to neither.
\<close>

definition loose_eq :: "bool option \<Rightarrow> bool \<Rightarrow> bool" where
  "loose_eq v b = (v = Some b)"

text \<open>\<^verbatim>\<open>'' + v\<close>: the string coercion the graph library applies to node keys.\<close>

fun to_string :: "string option \<Rightarrow> string" where
  "to_string (Some s) = s"
| "to_string None = ''undefined''"

section \<open>The graph model\<close>

text \<open>
  Modelled from the spec: the graph model (the \<^verbatim>\<open>Graph\<close> class of the graphology
  library, created at line 48 with \<^verbatim>\<open>multi: true\<close>) is an external collaborator and is not
  under \<^verbatim>\<open>src/\<close>. The specification describes it as an in-memory multigraph of nodes and
  edges with attribute maps, whose node drop cascades to the incident edges, whose clear
  destroys every node and edge, and whose edges carry an identifier that is given or
  generated. Nodes and edges are kept in insertion order. An operation that the library
  refuses raises before it changes anything: a missing node or edge is
  \<open>NotFoundGraphError\<close>, a key already in use is \<open>UsageGraphError\<close>. The
  specification does not fix the order in which the edges of a node are enumerated; here
  it is the order of insertion, and the statements about the edges of a node below are
  about multisets.

  Attribute bags are values. The source shares one bag between a structural edge, its
  record in the buffer and the bridge made from it; the sharing is visible only when an
  attribute is written between a remove and the add-back that follows, which no
  statement below does.
\<close>

definition hasNode :: "graph \<Rightarrow> string \<Rightarrow> bool" where
  "hasNode g n = (n \<in> fst ` set (nodes g))"

definition find_edge :: "graph \<Rightarrow> edge_key \<Rightarrow> edge option" where
  "find_edge g k = find (\<lambda>e. key e = k) (edges g)"

definition hasExtremity :: "edge \<Rightarrow> string \<Rightarrow> bool" where
  "hasExtremity e n = (source e = n \<or> target e = n)"

definition incident :: "graph \<Rightarrow> string \<Rightarrow> edge list" where
  "incident g n = filter (\<lambda>e. hasExtremity e n) (edges g)"

definition getNodeAttributes :: "graph \<Rightarrow> string \<Rightarrow> error + node_attrs" where
  "getNodeAttributes g n =
    (case map_of (nodes g) n of None \<Rightarrow> Inl NotFoundGraphError | Some a \<Rightarrow> Inr a)"

definition empty_node_attrs :: node_attrs where
  "empty_node_attrs = \<lparr>n_x = None, n_y = None, n_size = None, n_color = None, n_label = None,
     n_hidden = None, n_isExtraData = None, n_isMalop = None, n_neighbors = None\<rparr>"

definition empty_edge_attrs :: edge_attrs where
  "empty_edge_attrs = \<lparr>e_label = None, e_attr = None, e_color = None, e_size = None\<rparr>"

text \<open>\<^verbatim>\<open>addNode(node, attributes)\<close>: a missing attribute bag is the empty bag.\<close>

definition addNode :: "graph \<Rightarrow> string \<Rightarrow> node_attrs option \<Rightarrow> error + graph" where
  "addNode g n a =
    (if hasNode g n then Inl UsageGraphError
     else Inr (g\<lparr>nodes := nodes g @ [(n, case a of None \<Rightarrow> empty_node_attrs | Some b \<Rightarrow> b)]\<rparr>))"

text \<open>
  The edge key generator: a counter that is advanced until the key it yields is not in
  use. The number of edges whose generated key is at or above the counter decreases with
  every step, so the search ends.
\<close>

function free_edge_id :: "edge list \<Rightarrow> nat \<Rightarrow> nat" where
  "free_edge_id es n = (if Generated n \<in> key ` set es then free_edge_id es (Suc n) else n)"
  by pat_completeness auto
termination
proof (relation "measure (\<lambda>(es, n). length (filter (\<lambda>e. case key e of Generated i \<Rightarrow> n \<le> i | Named s \<Rightarrow> False) es))")
  show "wf (measure (\<lambda>(es, n). length (filter (\<lambda>e. case key e of Generated i \<Rightarrow> n \<le> i | Named s \<Rightarrow> False) es)))"
    by simp
next
  fix es :: "edge list" and n :: nat
  assume used: "Generated n \<in> key ` set es"
  let ?P = "\<lambda>m e. case key e of Generated i \<Rightarrow> m \<le> i | Named s \<Rightarrow> False"
  have mono: "length (filter (?P (Suc n)) xs) \<le> length (filter (?P n) xs)" for xs :: "edge list"
    by (induction xs) (auto split: edge_key.splits)
  have strict: "Generated n \<in> key ` set xs \<Longrightarrow>
      length (filter (?P (Suc n)) xs) < length (filter (?P n) xs)" for xs :: "edge list"
  proof (induction xs)
    case Nil
    then show ?case by simp
  next
    case (Cons x xs)
    show ?case
    proof (cases "key x = Generated n")
      case True
      then show ?thesis using mono [of xs] by (simp add: less_Suc_eq_le)
    next
      case False
      with Cons.prems have "Generated n \<in> key ` set xs" by auto
      from Cons.IH [OF this] show ?thesis by (auto split: edge_key.splits)
    qed
  qed
  from strict [OF used]
  show "((es, Suc n), (es, n)) \<in> measure (\<lambda>(es, n). length (filter (?P n) es))"
    by simp
qed

declare free_edge_id.simps [simp del]

text \<open>
  \<^verbatim>\<open>addEdge(source, target, attributes)\<close> and its undirected and keyed variants: both
  endpoints are coerced to strings and must be nodes of the graph; a given key must not be
  in use.
\<close>

definition add_edge :: "graph \<Rightarrow> bool \<Rightarrow> string option \<Rightarrow> string option \<Rightarrow> string option \<Rightarrow> edge_attrs option
    \<Rightarrow> error + (edge_key \<times> graph)" where
  "add_edge g undir name s t a =
    (let src = to_string s; tgt = to_string t;
         attrs = (case a of None \<Rightarrow> empty_edge_attrs | Some b \<Rightarrow> b)
     in if \<not> hasNode g src then Inl NotFoundGraphError
        else if \<not> hasNode g tgt then Inl NotFoundGraphError
        else (case name of
                None \<Rightarrow>
                 (let i = free_edge_id (edges g) (edgeId g); k = Generated i
                  in Inr (k, g\<lparr>edges := edges g @ [\<lparr>key = k, source = src, target = tgt,
                                   undirected = undir, attributes = attrs\<rparr>],
                               edgeId := Suc i\<rparr>))
              | Some nm \<Rightarrow>
                 (if Named nm \<in> key ` set (edges g) then Inl UsageGraphError
                  else Inr (Named nm, g\<lparr>edges := edges g @ [\<lparr>key = Named nm, source = src,
                                   target = tgt, undirected = undir, attributes = attrs\<rparr>]\<rparr>))))"

definition addEdge :: "graph \<Rightarrow> string option \<Rightarrow> string option \<Rightarrow> edge_attrs \<Rightarrow> error + (edge_key \<times> graph)" where
  "addEdge g s t a = add_edge g False None s t (Some a)"

definition dropNode :: "graph \<Rightarrow> string \<Rightarrow> error + graph" where
  "dropNode g n =
    (if \<not> hasNode g n then Inl NotFoundGraphError
     else Inr (g\<lparr>nodes := filter (\<lambda>p. fst p \<noteq> n) (nodes g),
                 edges := filter (\<lambda>e. \<not> hasExtremity e n) (edges g)\<rparr>))"

definition dropEdge :: "graph \<Rightarrow> edge_key \<Rightarrow> error + graph" where
  "dropEdge g k =
    (if find_edge g k = None then Inl NotFoundGraphError
     else Inr (g\<lparr>edges := filter (\<lambda>e. key e \<noteq> k) (edges g)\<rparr>))"

definition clear :: "graph \<Rightarrow> graph" where
  "clear g = g\<lparr>nodes := [], edges := []\<rparr>"

text \<open>
  The import format of the specification: node records (id, attributes) and edge records
  (id or generated, source, target, attributes, directedness). The import adds the nodes,
  then the edges, in the order of the document, and stops at the first refusal.
\<close>

record serialized_node =
  sn_key :: string
  sn_attributes :: "node_attrs option"

record serialized_edge =
  se_key :: "string option"
  se_source :: string
  se_target :: string
  se_attributes :: "edge_attrs option"
  se_undirected :: bool

record document =
  doc_nodes :: "serialized_node list"
  doc_edges :: "serialized_edge list"

fun import_nodes :: "serialized_node list \<Rightarrow> graph \<Rightarrow> graph \<times> error option" where
  "import_nodes [] g = (g, None)"
| "import_nodes (n # ns) g =
    (case addNode g (sn_key n) (sn_attributes n) of
       Inl err \<Rightarrow> (g, Some err)
     | Inr g' \<Rightarrow> import_nodes ns g')"

fun import_edges :: "serialized_edge list \<Rightarrow> graph \<Rightarrow> graph \<times> error option" where
  "import_edges [] g = (g, None)"
| "import_edges (e # es) g =
    (case add_edge g (se_undirected e) (se_key e) (Some (se_source e)) (Some (se_target e))
            (se_attributes e) of
       Inl err \<Rightarrow> (g, Some err)
     | Inr kg \<Rightarrow> import_edges es (snd kg))"

definition import_document :: "graph \<Rightarrow> document \<Rightarrow> graph \<times> error option" where
  "import_document g d =
    (case import_nodes (doc_nodes d) g of
       (g1, Some err) \<Rightarrow> (g1, Some err)
     | (g1, None) \<Rightarrow> import_edges (doc_edges d) g1)"

section \<open>The reducers\<close>

definition grey :: string where
  "grey = ''#f6f6f6''"

text \<open>\<^verbatim>\<open>nodeReducer\<close>, lines 257--274.\<close>

definition nodeReducer :: "State \<Rightarrow> string \<Rightarrow> node_display \<Rightarrow> node_display" where
  "nodeReducer st node data =
    (let res = data in
     if \<not> truthy_bool (hoveredNodeIsMalop st) then
       (let res1 =
              (if (case hoveredNeighbors st of None \<Rightarrow> False | Some ns \<Rightarrow> node \<notin> ns)
                  \<and> hoveredNode st \<noteq> Some node
               then res\<lparr>nd_label := Some '''', nd_color := Some grey\<rparr>
               else res)
        in if selectedNode st = Some node
           then res1\<lparr>nd_highlighted := Some True\<rparr>
           else if (case suggestions st of None \<Rightarrow> False | Some sg \<Rightarrow> node \<notin> sg)
           then res1\<lparr>nd_label := Some '''', nd_color := Some grey\<rparr>
           else res1)
     else res)"

text \<open>
  \<^verbatim>\<open>edgeReducer\<close>, lines 281--300. \<^verbatim>\<open>graph.source\<close>, \<^verbatim>\<open>graph.target\<close> and
  \<^verbatim>\<open>graph.hasExtremity\<close> raise for an edge key that the graph does not hold; they are only
  reached when the hovered node is not a malop.
\<close>

definition edgeReducer :: "State \<Rightarrow> graph \<Rightarrow> edge_key \<Rightarrow> edge_display \<Rightarrow> error + edge_display" where
  "edgeReducer st g edge data =
    (let res = data in
     if \<not> truthy_bool (hoveredNodeIsMalop st) then
       (case find_edge g edge of
          None \<Rightarrow> Inl NotFoundGraphError
        | Some e \<Rightarrow>
           (let edgeSource = source e;
                hasNeighbor = (case hoveredNeighbors st of None \<Rightarrow> False | Some ns \<Rightarrow> edgeSource \<in> ns);
                res1 = (if truthy_str (hoveredNode st)
                           \<and> \<not> hasExtremity e (to_string (hoveredNode st))
                           \<and> \<not> hasNeighbor
                        then res\<lparr>ed_hidden := Some True\<rparr> else res);
                res2 = (if (case suggestions st of None \<Rightarrow> False
                            | Some sg \<Rightarrow> source e \<notin> sg \<or> target e \<notin> sg)
                        then res1\<lparr>ed_hidden := Some True\<rparr> else res1)
            in Inr res2))
     else Inr res)"

section \<open>The level-of-detail toggle\<close>

text \<open>
  \<^verbatim>\<open>display_values\<close>, lines 62--91. The camera ratio is a finite double and is its real
  value here; the comparison of two doubles is exact. The literal \<^verbatim>\<open>.3\<close> denotes the
  double nearest to three tenths, which is 5404319552844595 / 2^54 and lies slightly below
  three tenths: that double is the threshold.
  Each iteration of the two \<^verbatim>\<open>forEach\<close> loops reads and writes the attribute bag of its
  own node or edge only, so the loops are maps over the entries. Every call of
  \<^verbatim>\<open>setNodeAttribute\<close> or \<^verbatim>\<open>setEdgeAttribute\<close> is logged.
\<close>

datatype attr_write = SetNodeHidden string bool | SetEdgeColor edge_key string

definition threshold :: real where
  "threshold = 5404319552844595 / 18014398509481984"

definition display_node :: "real \<Rightarrow> string \<times> node_attrs \<Rightarrow> (string \<times> node_attrs) \<times> attr_write list" where
  "display_node ratio na =
    (let node = fst na; a = snd na;
         node_isExtraData = n_isExtraData a;
         node_hidden = n_hidden a
     in if ratio < threshold then
          (if loose_eq node_isExtraData True \<and> loose_eq node_hidden True
           then ((node, a\<lparr>n_hidden := Some False\<rparr>), [SetNodeHidden node False])
           else ((node, a), []))
        else
          (if loose_eq node_isExtraData True \<and> loose_eq node_hidden False
           then ((node, a\<lparr>n_hidden := Some True\<rparr>), [SetNodeHidden node True])
           else ((node, a), [])))"

definition display_edge :: "real \<Rightarrow> edge \<Rightarrow> edge \<times> attr_write list" where
  "display_edge ratio e =
    (let edge_attr = e_attr (attributes e)
     in if ratio < threshold then
          (if loose_eq edge_attr False
           then (e\<lparr>attributes := (attributes e)\<lparr>e_color := Some ''#FFFFFF''\<rparr>\<rparr>,
                 [SetEdgeColor (key e) ''#FFFFFF''])
           else (e, []))
        else
          (if loose_eq edge_attr False
           then (e\<lparr>attributes := (attributes e)\<lparr>e_color := Some ''#000000''\<rparr>\<rparr>,
                 [SetEdgeColor (key e) ''#000000''])
           else (e, [])))"

definition display_values :: "real \<Rightarrow> graph \<Rightarrow> graph \<times> attr_write list" where
  "display_values ratio g =
    (let ns = map (display_node ratio) (nodes g);
         es = map (display_edge ratio) (edges g)
     in (g\<lparr>nodes := map fst ns, edges := map fst es\<rparr>,
         concat (map snd ns) @ concat (map snd es)))"

fun is_node_write :: "attr_write \<Rightarrow> bool" where
  "is_node_write (SetNodeHidden n b) = True"
| "is_node_write (SetEdgeColor k c) = False"

section \<open>The context menu: remove and add back\<close>

text \<open>
  The \<^verbatim>\<open>ContextState\<close> interface (lines 108--114) and its initial value (line 115). The
  field \<^verbatim>\<open>selectedNode\<close> is prefixed because \<^verbatim>\<open>State\<close> has a field of that name.
\<close>

record removed_edge =
  re_source :: string
  re_target :: string
  re_attributes :: edge_attrs

record ContextState =
  cs_selectedNode :: "string option"
  removedNode :: "string option"
  removedNodeAttributes :: "node_attrs option"
  revmovedEdges :: "removed_edge list option"
  newEdges :: "edge_key list option"

definition initial_contextState :: ContextState where
  "initial_contextState = \<lparr>cs_selectedNode = None, removedNode = None,
     removedNodeAttributes = None, revmovedEdges = Some [], newEdges = Some []\<rparr>"

text \<open>
  What the handlers read and write: the graph, the context state and whether the context
  menu carries the class \<^verbatim>\<open>visible\<close>. A handler returns the state it leaves behind and
  the exception that ended it, if any.
\<close>

record app =
  graph :: graph
  contextState :: ContextState
  contextMenuVisible :: bool

text \<open>\<^verbatim>\<open>rightClickNode\<close>, lines 302--314: the menu is shown again by the timeout.\<close>

definition rightClickNode :: "string \<Rightarrow> app \<Rightarrow> app" where
  "rightClickNode node s =
    s\<lparr>contextState := (contextState s)\<lparr>cs_selectedNode := Some node\<rparr>,
      contextMenuVisible := True\<rparr>"

text \<open>
  An entry of the local object \<^verbatim>\<open>newEdges\<close> of the remove handler (line 191). The object
  is an association list from label to entry in insertion order, which is the order of
  \<^verbatim>\<open>for ... in\<close> for keys that are not array indices. A missing label is the key
  \<^verbatim>\<open>undefined\<close>. Labels are taken to be neither array indices nor names that every
  object inherits.
\<close>

record bridge =
  b_source :: "string option"
  b_target :: "string option"
  b_attributes :: edge_attrs

definition update_bridge :: "string \<Rightarrow> (bridge \<Rightarrow> bridge) \<Rightarrow> (string \<times> bridge) list \<Rightarrow> (string \<times> bridge) list" where
  "update_bridge label f bs = map (\<lambda>lb. if fst lb = label then (fst lb, f (snd lb)) else lb) bs"

text \<open>
  The callback passed to \<^verbatim>\<open>findEdge\<close> (lines 193--220), on the pair of the local
  \<^verbatim>\<open>newEdges\<close> and of \<^verbatim>\<open>contextState.revmovedEdges\<close>. \<^verbatim>\<open>push\<close> on an undefined list is a
  \<open>TypeError\<close>. The callback returns nothing, so \<^verbatim>\<open>findEdge\<close> visits every edge.
\<close>

definition findEdge_callback :: "string \<Rightarrow> edge
    \<Rightarrow> (string \<times> bridge) list \<times> removed_edge list option
    \<Rightarrow> error + ((string \<times> bridge) list \<times> removed_edge list option)" where
  "findEdge_callback selected e acc =
    (let bs = fst acc;
         label = to_string (e_label (attributes e));
         attr = e_attr (attributes e);
         bs1 = (if loose_eq attr False \<and> label \<notin> fst ` set bs
                then bs @ [(label, \<lparr>b_source = None, b_target = None,
                                     b_attributes = attributes e\<rparr>)]
                else bs)
     in case snd acc of
          None \<Rightarrow> Inl TypeError
        | Some rs \<Rightarrow>
           (let removedEdge = \<lparr>re_source = source e, re_target = target e,
                                re_attributes = attributes e\<rparr>;
                bs2 = (if loose_eq attr False \<and> source e = selected
                       then update_bridge label (\<lambda>b. b\<lparr>b_source := Some (target e)\<rparr>) bs1
                       else bs1);
                bs3 = (if loose_eq attr False \<and> target e = selected
                       then update_bridge label (\<lambda>b. b\<lparr>b_target := Some (source e)\<rparr>) bs2
                       else bs2)
            in Inr (bs3, Some (rs @ [removedEdge]))))"

fun forEach_edge :: "(edge \<Rightarrow> 'a \<Rightarrow> error + 'a) \<Rightarrow> edge list \<Rightarrow> 'a \<Rightarrow> error + 'a" where
  "forEach_edge f [] acc = Inr acc"
| "forEach_edge f (e # es) acc =
    (case f e acc of Inl err \<Rightarrow> Inl err | Inr acc' \<Rightarrow> forEach_edge f es acc')"

text \<open>The loop of lines 222--225 on the graph and \<^verbatim>\<open>contextState.newEdges\<close>.\<close>

fun add_bridges :: "(string \<times> bridge) list \<Rightarrow> graph \<Rightarrow> edge_key list option
    \<Rightarrow> (graph \<times> edge_key list option) \<times> error option" where
  "add_bridges [] g ks = ((g, ks), None)"
| "add_bridges (lb # bs) g ks =
    (case addEdge g (b_source (snd lb)) (b_target (snd lb)) (b_attributes (snd lb)) of
       Inl err \<Rightarrow> ((g, ks), Some err)
     | Inr kg \<Rightarrow>
        (case ks of
           None \<Rightarrow> ((snd kg, None), Some TypeError)
         | Some xs \<Rightarrow> add_bridges bs (snd kg) (Some (xs @ [fst kg]))))"

text \<open>The click handler of \<^verbatim>\<open>malopRemoveBtn\<close>, lines 186--230.\<close>

definition malopRemoveBtn_click :: "app \<Rightarrow> app \<times> error option" where
  "malopRemoveBtn_click s =
    (let cs = contextState s in
     if truthy_str (cs_selectedNode cs) then
       (let selected = to_string (cs_selectedNode cs);
            cs1 = cs\<lparr>removedNode := cs_selectedNode cs\<rparr>
        in case getNodeAttributes (graph s) selected of
             Inl err \<Rightarrow> (s\<lparr>contextState := cs1\<rparr>, Some err)
           | Inr attrs \<Rightarrow>
              (let cs2 = cs1\<lparr>removedNodeAttributes := Some attrs\<rparr>
               in case forEach_edge (findEdge_callback selected) (incident (graph s) selected)
                         ([], revmovedEdges cs2) of
                    Inl err \<Rightarrow> (s\<lparr>contextState := cs2\<rparr>, Some err)
                  | Inr acc \<Rightarrow>
                     (let cs3 = cs2\<lparr>revmovedEdges := snd acc\<rparr>
                      in case add_bridges (fst acc) (graph s) (newEdges cs3) of
                           (gk, Some err) \<Rightarrow>
                             (s\<lparr>graph := fst gk, contextState := cs3\<lparr>newEdges := snd gk\<rparr>\<rparr>,
                              Some err)
                         | (gk, None) \<Rightarrow>
                            (case dropNode (fst gk) selected of
                               Inl err \<Rightarrow>
                                 (s\<lparr>graph := fst gk,
                                    contextState := cs3\<lparr>newEdges := snd gk\<rparr>\<rparr>, Some err)
                             | Inr g2 \<Rightarrow>
                                 (s\<lparr>graph := g2, contextState := cs3\<lparr>newEdges := snd gk\<rparr>,
                                    contextMenuVisible := False\<rparr>, None)))))
     else (s, None))"

text \<open>The two loops of the add-back handler, lines 168--176.\<close>

fun readd_edges :: "removed_edge list \<Rightarrow> graph \<Rightarrow> graph \<times> error option" where
  "readd_edges [] g = (g, None)"
| "readd_edges (r # rs) g =
    (case addEdge g (Some (re_source r)) (Some (re_target r)) (re_attributes r) of
       Inl err \<Rightarrow> (g, Some err)
     | Inr kg \<Rightarrow> readd_edges rs (snd kg))"

fun drop_edges :: "edge_key list \<Rightarrow> graph \<Rightarrow> graph \<times> error option" where
  "drop_edges [] g = (g, None)"
| "drop_edges (k # ks) g =
    (case dropEdge g k of
       Inl err \<Rightarrow> (g, Some err)
     | Inr g' \<Rightarrow> drop_edges ks g')"

text \<open>
  The click handler of \<^verbatim>\<open>malopAddBtn\<close>, lines 164--184. Reading \<^verbatim>\<open>length\<close> of an undefined
  list is a \<open>TypeError\<close>.
\<close>

definition malopAddBtn_click :: "app \<Rightarrow> app \<times> error option" where
  "malopAddBtn_click s =
    (let cs = contextState s in
     if truthy_str (removedNode cs) then
       (case addNode (graph s) (to_string (removedNode cs)) (removedNodeAttributes cs) of
          Inl err \<Rightarrow> (s, Some err)
        | Inr g1 \<Rightarrow>
           (case revmovedEdges cs of
              None \<Rightarrow> (s\<lparr>graph := g1\<rparr>, Some TypeError)
            | Some rs \<Rightarrow>
               (case readd_edges rs g1 of
                  (g2, Some err) \<Rightarrow> (s\<lparr>graph := g2\<rparr>, Some err)
                | (g2, None) \<Rightarrow>
                   (case newEdges cs of
                      None \<Rightarrow> (s\<lparr>graph := g2\<rparr>, Some TypeError)
                    | Some ks \<Rightarrow>
                       (case drop_edges ks g2 of
                          (g3, Some err) \<Rightarrow> (s\<lparr>graph := g3\<rparr>, Some err)
                        | (g3, None) \<Rightarrow>
                            (s\<lparr>graph := g3,
                               contextState := cs\<lparr>removedNode := None,
                                 removedNodeAttributes := None, revmovedEdges := None,
                                 newEdges := None\<rparr>,
                               contextMenuVisible := False\<rparr>, None))))))
     else (s, None))"

section \<open>The layout selector\<close>

text \<open>
  The change handler of \<^verbatim>\<open>alignmentSelect\<close>, lines 232--251. The two documents are JSON
  files that are not under \<^verbatim>\<open>src/\<close>; they are parameters.
\<close>

definition selected_document :: "document \<Rightarrow> document \<Rightarrow> string \<Rightarrow> document" where
  "selected_document machineData2 userData opt =
    (if opt = ''machine'' then machineData2
     else if opt = ''user'' then userData
     else if opt = ''mitre'' then machineData2
     else machineData2)"

definition alignmentSelect_change :: "document \<Rightarrow> document \<Rightarrow> string \<Rightarrow> graph \<Rightarrow> graph \<times> error option" where
  "alignmentSelect_change machineData2 userData opt g =
    (let g1 = clear g
     in import_document g1 (selected_document machineData2 userData opt))"

section \<open>Notions used in the statements\<close>

text \<open>A key that the generator produced while its counter went from \<open>lo\<close> to \<open>hi\<close>.\<close>

fun gen_in :: "nat \<Rightarrow> nat \<Rightarrow> edge_key \<Rightarrow> bool" where
  "gen_in lo hi (Generated i) = (lo \<le> i \<and> i < hi)"
| "gen_in lo hi (Named s) = False"

fun is_generated :: "edge_key \<Rightarrow> bool" where
  "is_generated (Generated i) = True"
| "is_generated (Named s) = False"

definition shape :: "edge \<Rightarrow> string \<times> string \<times> edge_attrs" where
  "shape e = (source e, target e, attributes e)"

definition removed_shape :: "removed_edge \<Rightarrow> string \<times> string \<times> edge_attrs" where
  "removed_shape r = (re_source r, re_target r, re_attributes r)"

definition record_of :: "edge \<Rightarrow> removed_edge" where
  "record_of e = \<lparr>re_source = source e, re_target = target e, re_attributes = attributes e\<rparr>"

text \<open>
  A structural edge and the property key under which the remove handler files it. A graph
  is well formed when every edge joins two of its nodes. The structural edges of a node
  are paired when none of them is a loop and every label they carry is carried by one
  that leaves the node and by one that enters it.
\<close>

definition structural :: "edge \<Rightarrow> bool" where
  "structural e = loose_eq (e_attr (attributes e)) False"

definition label_of :: "edge \<Rightarrow> string" where
  "label_of e = to_string (e_label (attributes e))"

definition wf_endpoints :: "graph \<Rightarrow> bool" where
  "wf_endpoints g = list_all (\<lambda>e. hasNode g (source e) \<and> hasNode g (target e)) (edges g)"

definition paired :: "graph \<Rightarrow> string \<Rightarrow> bool" where
  "paired g N =
    list_all (\<lambda>e. structural e \<longrightarrow>
        source e \<noteq> target e
      \<and> list_ex (\<lambda>e1. structural e1 \<and> label_of e1 = label_of e \<and> source e1 = N) (incident g N)
      \<and> list_ex (\<lambda>e2. structural e2 \<and> label_of e2 = label_of e \<and> target e2 = N) (incident g N))
     (incident g N)"

text \<open>
  What holds of the local object \<^verbatim>\<open>newEdges\<close> after the callback has seen the edges \<open>es\<close>:
  its labels are distinct and are the labels of the structural edges seen, an endpoint of
  an entry is set when a structural edge under the label has been seen on that side, and
  it then comes from such an edge.
\<close>

definition bridges_inv :: "string \<Rightarrow> edge list \<Rightarrow> (string \<times> bridge) list \<Rightarrow> bool" where
  "bridges_inv N es bs \<longleftrightarrow>
     distinct (map fst bs)
   \<and> (\<forall>l. case map_of bs l of
            None \<Rightarrow> (\<forall>e \<in> set es. structural e \<longrightarrow> label_of e \<noteq> l)
          | Some b \<Rightarrow>
              (b_source b = None \<longrightarrow> (\<forall>e \<in> set es. structural e \<and> label_of e = l \<longrightarrow> source e \<noteq> N))
            \<and> (\<forall>x. b_source b = Some x \<longrightarrow> (\<exists>e \<in> set es. structural e \<and> source e = N \<and> target e = x))
            \<and> (b_target b = None \<longrightarrow> (\<forall>e \<in> set es. structural e \<and> label_of e = l \<longrightarrow> target e \<noteq> N))
            \<and> (\<forall>x. b_target b = Some x \<longrightarrow> (\<exists>e \<in> set es. structural e \<and> target e = N \<and> source e = x))
            \<and> (\<exists>e \<in> set es. structural e \<and> label_of e = l))"

text \<open>What a node record and an edge record of a document become in the graph.\<close>

definition node_of :: "serialized_node \<Rightarrow> string \<times> node_attrs" where
  "node_of n = (sn_key n, case sn_attributes n of None \<Rightarrow> empty_node_attrs | Some b \<Rightarrow> b)"

definition edge_matches :: "edge \<Rightarrow> serialized_edge \<Rightarrow> bool" where
  "edge_matches e se =
    (source e = se_source se \<and> target e = se_target se \<and> undirected e = se_undirected se
     \<and> attributes e = (case se_attributes se of None \<Rightarrow> empty_edge_attrs | Some b \<Rightarrow> b)
     \<and> (case se_key se of None \<Rightarrow> is_generated (key e) | Some k \<Rightarrow> key e = Named k))"

section \<open>Concrete inputs\<close>

definition empty_node_display :: node_display where
  "empty_node_display = \<lparr>nd_x = None, nd_y = None, nd_size = None, nd_color = None,
     nd_label = None, nd_hidden = None, nd_highlighted = None, nd_forceLabel = None,
     nd_zIndex = None, nd_type = None\<rparr>"

definition empty_edge_display :: edge_display where
  "empty_edge_display = \<lparr>ed_size = None, ed_color = None, ed_label = None, ed_hidden = None,
     ed_forceLabel = None, ed_zIndex = None, ed_type = None\<rparr>"

text \<open>A hover on \<open>h\<close>, whose neighbour set is \<open>{b}\<close>; edges \<open>a \<rightarrow> b\<close> and \<open>a \<rightarrow> c\<close>.\<close>

definition hover_state :: State where
  "hover_state = \<lparr>hoveredNode = Some ''h'', hoveredNodeLabel = Some ''H'',
     hoveredNodeIsMalop = Some False, selectedNode = None, suggestions = None,
     hoveredNeighbors = Some {''b''}\<rparr>"

definition malop_state :: State where
  "malop_state = hover_state\<lparr>hoveredNodeIsMalop := Some True\<rparr>"

definition hover_graph :: graph where
  "hover_graph = \<lparr>nodes = [(''h'', empty_node_attrs), (''a'', empty_node_attrs),
       (''b'', empty_node_attrs), (''c'', empty_node_attrs)],
     edges = [\<lparr>key = Named ''e1'', source = ''a'', target = ''b'', undirected = False,
                attributes = empty_edge_attrs\<rparr>,
              \<lparr>key = Named ''e2'', source = ''a'', target = ''c'', undirected = False,
                attributes = empty_edge_attrs\<rparr>],
     edgeId = 0\<rparr>"

definition red_node :: node_display where
  "red_node = empty_node_display\<lparr>nd_label := Some ''C'', nd_color := Some ''#ff0000''\<rparr>"

definition shown_edge :: edge_display where
  "shown_edge = empty_edge_display\<lparr>ed_hidden := Some False\<rparr>"

text \<open>
  Three extra-data nodes, hidden, without a \<^verbatim>\<open>hidden\<close> attribute and shown, and one
  structural edge.
\<close>

text \<open>The double that the literal \<^verbatim>\<open>0.2999\<close> denotes.\<close>

definition ratio_0_2999 :: real where
  "ratio_0_2999 = 5402518112993647 / 18014398509481984"

definition lod_graph :: graph where
  "lod_graph = \<lparr>nodes = [(''x'', empty_node_attrs\<lparr>n_isExtraData := Some True, n_hidden := Some True\<rparr>),
                       (''y'', empty_node_attrs\<lparr>n_isExtraData := Some True\<rparr>),
                       (''z'', empty_node_attrs\<lparr>n_isExtraData := Some True, n_hidden := Some False\<rparr>)],
     edges = [\<lparr>key = Named ''e1'', source = ''x'', target = ''y'', undirected = False,
                attributes = empty_edge_attrs\<lparr>e_attr := Some False\<rparr>\<rparr>],
     edgeId = 0\<rparr>"

text \<open>
  An observed edge (\<^verbatim>\<open>attr\<close> true) and a structural edge (\<^verbatim>\<open>attr\<close> false) under the
  label \<open>L\<close>.
\<close>

definition plain_edge_attrs :: edge_attrs where
  "plain_edge_attrs = empty_edge_attrs\<lparr>e_label := Some ''talks'', e_attr := Some True\<rparr>"

definition structural_attrs :: edge_attrs where
  "structural_attrs = empty_edge_attrs\<lparr>e_label := Some ''L'', e_attr := Some False\<rparr>"

text \<open>Nodes \<open>n\<close> and \<open>a\<close> joined by one observed edge; \<open>n\<close> has been right-clicked.\<close>

definition cycle_graph :: graph where
  "cycle_graph = \<lparr>nodes = [(''n'', empty_node_attrs), (''a'', empty_node_attrs)],
     edges = [\<lparr>key = Named ''e1'', source = ''a'', target = ''n'', undirected = False,
                attributes = plain_edge_attrs\<rparr>],
     edgeId = 0\<rparr>"

definition cycle_app :: app where
  "cycle_app = rightClickNode ''n''
     \<lparr>graph = cycle_graph, contextState = initial_contextState, contextMenuVisible = False\<rparr>"

text \<open>Nodes \<open>n\<close> and \<open>a\<close> joined by one structural edge under label \<open>L\<close>.\<close>

definition single_graph :: graph where
  "single_graph = \<lparr>nodes = [(''n'', empty_node_attrs), (''a'', empty_node_attrs)],
     edges = [\<lparr>key = Named ''e1'', source = ''n'', target = ''a'', undirected = False,
                attributes = structural_attrs\<rparr>],
     edgeId = 0\<rparr>"

definition single_app :: app where
  "single_app = rightClickNode ''n''
     \<lparr>graph = single_graph, contextState = initial_contextState, contextMenuVisible = False\<rparr>"

text \<open>
  A chain \<open>a \<rightarrow> n \<rightarrow> b\<close> of structural edges under the label \<open>L\<close>, and an observed edge
  \<open>n \<rightarrow> c\<close>; \<open>n\<close> has been right-clicked.
\<close>

definition chain_graph :: graph where
  "chain_graph = \<lparr>nodes = [(''a'', empty_node_attrs), (''n'', empty_node_attrs\<lparr>n_label := Some ''N''\<rparr>),
       (''b'', empty_node_attrs), (''c'', empty_node_attrs)],
     edges = [\<lparr>key = Named ''e1'', source = ''a'', target = ''n'', undirected = False,
                attributes = structural_attrs\<rparr>,
              \<lparr>key = Named ''e2'', source = ''n'', target = ''b'', undirected = False,
                attributes = structural_attrs\<rparr>,
              \<lparr>key = Named ''e3'', source = ''n'', target = ''c'', undirected = False,
                attributes = plain_edge_attrs\<rparr>,
              \<lparr>key = Named ''e4'', source = ''b'', target = ''c'', undirected = True,
                attributes = plain_edge_attrs\<rparr>],
     edgeId = 0\<rparr>"








text \<open>Two documents for the layout selector.\<close>

definition machine_document :: document where
  "machine_document = \<lparr>doc_nodes = [\<lparr>sn_key = ''m1'', sn_attributes = None\<rparr>], doc_edges = []\<rparr>"

definition user_document :: document where
  "user_document =
    \<lparr>doc_nodes = [\<lparr>sn_key = ''u1'', sn_attributes = Some (empty_node_attrs\<lparr>n_label := Some ''U''\<rparr>)\<rparr>,
                  \<lparr>sn_key = ''u2'', sn_attributes = None\<rparr>],
     doc_edges = [\<lparr>se_key = None, se_source = ''u1'', se_target = ''u2'',
                    se_attributes = Some structural_attrs, se_undirected = False\<rparr>,
                  \<lparr>se_key = Some ''k'', se_source = ''u2'', se_target = ''u1'',
                    se_attributes = None, se_undirected = True\<rparr>]\<rparr>"

definition user_layout :: graph where
  "user_layout =
    \<lparr>nodes = [(''u1'', empty_node_attrs\<lparr>n_label := Some ''U''\<rparr>), (''u2'', empty_node_attrs)],
     edges = [\<lparr>key = Generated 0, source = ''u1'', target = ''u2'', undirected = False,
                attributes = structural_attrs\<rparr>,
              \<lparr>key = Named ''k'', source = ''u2'', target = ''u1'', undirected = True,
                attributes = empty_edge_attrs\<rparr>],
     edgeId = 1\<rparr>"

section \<open>Properties of the reducers\<close>

text \<open>
  Claim C3. When a hovered-neighbour set exists, the hovered node is not flagged as a
  malop, and the node is neither the hovered node nor in the neighbour set, the node
  reducer returns the empty label and the grey colour \<^verbatim>\<open>#f6f6f6\<close>, whatever the selected
  node and the suggestion set are.
\<close>

theorem nodeReducer_greys_non_neighbors:
  assumes "hoveredNeighbors st = Some ns"
    and "\<not> truthy_bool (hoveredNodeIsMalop st)"
    and "hoveredNode st \<noteq> Some node"
    and "node \<notin> ns"
  shows "nd_label (nodeReducer st node data) = Some ''''
       \<and> nd_color (nodeReducer st node data) = Some ''#f6f6f6''"
  using assms by (simp add: nodeReducer_def grey_def Let_def split: option.splits)

theorem nodeReducer_greys_non_neighbors_witness:
  "hoveredNeighbors hover_state = Some {''b''}
   \<and> \<not> truthy_bool (hoveredNodeIsMalop hover_state)
   \<and> hoveredNode hover_state \<noteq> Some ''c'' \<and> ''c'' \<notin> {''b''}
   \<and> nd_label red_node = Some ''C''
   \<and> nd_label (nodeReducer hover_state ''c'' red_node) = Some ''''
   \<and> nd_color (nodeReducer hover_state ''c'' red_node) = Some ''#f6f6f6''"
  using nodeReducer_greys_non_neighbors [of hover_state "{''b''}" "''c''" red_node]
  by (simp add: hover_state_def red_node_def)

text \<open>
  Claim C7. When the hovered node is flagged as a malop, the node reducer and the edge
  reducer both return the base display attributes unchanged.
\<close>

theorem malop_suppression:
  assumes "truthy_bool (hoveredNodeIsMalop st)"
  shows "nodeReducer st node data = data \<and> edgeReducer st g edge edata = Inr edata"
  using assms by (simp add: nodeReducer_def edgeReducer_def)

theorem malop_suppression_witness:
  "truthy_bool (hoveredNodeIsMalop malop_state)
   \<and> nodeReducer malop_state ''c'' red_node = red_node
   \<and> edgeReducer malop_state hover_graph (Named ''e2'') shown_edge = Inr shown_edge"
  using malop_suppression [of malop_state "''c''" red_node hover_graph "Named ''e2''" shown_edge]
  by (simp add: malop_state_def hover_state_def)

text \<open>
  Claim C4, as stated, says that an edge touching a node of the hover's neighbour set is
  not hidden by the hover rule. The reducer looks up the source of the edge only: the
  edge \<open>a \<rightarrow> b\<close> below has its target \<open>b\<close> in the neighbour set of the hovered node, no
  suggestion set is active and the base attributes are not hidden, yet the reducer hides
  the edge.
\<close>

theorem edgeReducer_target_neighbor_counterexample:
  "\<not> truthy_bool (hoveredNodeIsMalop hover_state)
   \<and> find_edge hover_graph (Named ''e1'') =
       Some \<lparr>key = Named ''e1'', source = ''a'', target = ''b'', undirected = False,
             attributes = empty_edge_attrs\<rparr>
   \<and> hoveredNeighbors hover_state = Some {''b''} \<and> ''b'' \<in> {''b''}
   \<and> suggestions hover_state = None
   \<and> ed_hidden shown_edge = Some False
   \<and> map_sum id ed_hidden (edgeReducer hover_state hover_graph (Named ''e1'') shown_edge)
       = Inr (Some True)"
  by (simp add: hover_state_def hover_graph_def find_edge_def edgeReducer_def hasExtremity_def
        shown_edge_def empty_edge_display_def)

text \<open>
  Claim C4, amended. When the hovered node is not flagged as a malop, the edge reducer
  sets the hidden flag precisely when (a) a node is hovered, the edge does not touch it
  and the source of the edge is not in the hover's neighbour set, or (b) a suggestion set
  is active and an endpoint of the edge is absent from it; otherwise it returns the base
  display attributes unchanged.
\<close>

theorem edgeReducer_hidden_rule:
  assumes "\<not> truthy_bool (hoveredNodeIsMalop st)"
    and "find_edge g k = Some e"
  shows "edgeReducer st g k data =
         Inr (if (truthy_str (hoveredNode st)
                  \<and> \<not> hasExtremity e (to_string (hoveredNode st))
                  \<and> (\<forall>ns. hoveredNeighbors st = Some ns \<longrightarrow> source e \<notin> ns))
               \<or> (\<exists>sg. suggestions st = Some sg \<and> (source e \<notin> sg \<or> target e \<notin> sg))
              then data\<lparr>ed_hidden := Some True\<rparr> else data)"
  using assms by (auto simp add: edgeReducer_def Let_def split: option.splits)

theorem edgeReducer_hidden_rule_witness:
  "\<not> truthy_bool (hoveredNodeIsMalop hover_state)
   \<and> find_edge hover_graph (Named ''e2'') =
       Some \<lparr>key = Named ''e2'', source = ''a'', target = ''c'', undirected = False,
             attributes = empty_edge_attrs\<rparr>
   \<and> edgeReducer hover_state hover_graph (Named ''e2'') shown_edge
       = Inr (shown_edge\<lparr>ed_hidden := Some True\<rparr>)"
  using edgeReducer_hidden_rule [of hover_state hover_graph "Named ''e2''"
      "\<lparr>key = Named ''e2'', source = ''a'', target = ''c'', undirected = False,
        attributes = empty_edge_attrs\<rparr>" shown_edge]
  by (simp add: hover_state_def hover_graph_def find_edge_def hasExtremity_def)

section \<open>Properties of the level-of-detail toggle\<close>

lemma display_node_exact:
  "fst (display_node r na) =
    (if n_isExtraData (snd na) = Some True \<and> n_hidden (snd na) \<noteq> None
     then (fst na, (snd na)\<lparr>n_hidden := Some (\<not> r < threshold)\<rparr>)
     else na)"
  by (cases na) (auto simp add: display_node_def Let_def loose_eq_def)

lemma display_edge_exact:
  "fst (display_edge r e) =
    (if e_attr (attributes e) = Some False
     then e\<lparr>attributes := (attributes e)
            \<lparr>e_color := Some (if r < threshold then ''#FFFFFF'' else ''#000000'')\<rparr>\<rparr>
     else e)"
  by (simp add: display_edge_def Let_def loose_eq_def)

lemma display_edge_log:
  "snd (display_edge r e) =
    (if e_attr (attributes e) = Some False
     then [SetEdgeColor (key e) (if r < threshold then ''#FFFFFF'' else ''#000000'')]
     else [])"
  by (simp add: display_edge_def Let_def loose_eq_def)

lemma nodes_display_values:
  "nodes (fst (display_values r g)) = map (\<lambda>na. fst (display_node r na)) (nodes g)"
  by (simp add: display_values_def Let_def comp_def)

lemma edges_display_values:
  "edges (fst (display_values r g)) = map (\<lambda>e. fst (display_edge r e)) (edges g)"
  by (simp add: display_values_def Let_def comp_def)

text \<open>
  Claim C5, as stated, covers every node flagged \<^verbatim>\<open>isExtraData\<close>. A node whose attribute
  bag has no \<^verbatim>\<open>hidden\<close> entry fails both guards (\<^verbatim>\<open>undefined == false\<close> is false): at the
  ratio 0.3 the node \<open>y\<close> is left as it was and is not hidden.
\<close>

theorem display_values_unset_hidden_counterexample:
  "n_isExtraData (snd (nodes lod_graph ! 1)) = Some True
   \<and> \<not> threshold < threshold
   \<and> nodes (fst (display_values threshold lod_graph)) ! 1
       = (''y'', empty_node_attrs\<lparr>n_isExtraData := Some True\<rparr>)
   \<and> n_hidden (snd (nodes (fst (display_values threshold lod_graph)) ! 1)) \<noteq> Some True"
  by (simp add: lod_graph_def display_values_def display_node_def display_edge_def
        loose_eq_def empty_node_attrs_def)

text \<open>
  Claim C5, amended. The ratio and the threshold are doubles, the threshold being the
  double that the literal \<^verbatim>\<open>.3\<close> denotes. The toggle keeps the nodes and edges in place.
  A node flagged \<^verbatim>\<open>isExtraData\<close> whose \<^verbatim>\<open>hidden\<close> attribute is set has afterwards \<^verbatim>\<open>hidden\<close>
  false when the ratio is strictly below the threshold and true when it is at or above
  it, and its other attributes are as before; a node that has no \<^verbatim>\<open>hidden\<close> attribute or
  is not flagged \<^verbatim>\<open>isExtraData\<close> is left untouched. An edge with \<^verbatim>\<open>attr == false\<close> has
  afterwards the colour \<^verbatim>\<open>#FFFFFF\<close> below the threshold and \<^verbatim>\<open>#000000\<close> at or above it, and
  is otherwise as before; every other edge is left untouched.
\<close>

theorem display_values_threshold:
  "map fst (nodes (fst (display_values r g))) = map fst (nodes g)
   \<and> map key (edges (fst (display_values r g))) = map key (edges g)
   \<and> (\<forall>i < length (nodes g).
        (n_isExtraData (snd (nodes g ! i)) = Some True \<and> n_hidden (snd (nodes g ! i)) \<noteq> None \<longrightarrow>
           snd (nodes (fst (display_values r g)) ! i)
             = (snd (nodes g ! i))\<lparr>n_hidden := Some (\<not> r < threshold)\<rparr>)
      \<and> (n_isExtraData (snd (nodes g ! i)) \<noteq> Some True \<or> n_hidden (snd (nodes g ! i)) = None \<longrightarrow>
           nodes (fst (display_values r g)) ! i = nodes g ! i))
   \<and> (\<forall>i < length (edges g).
        (e_attr (attributes (edges g ! i)) = Some False \<longrightarrow>
           edges (fst (display_values r g)) ! i
             = (edges g ! i)\<lparr>attributes := (attributes (edges g ! i))
                 \<lparr>e_color := Some (if r < threshold then ''#FFFFFF'' else ''#000000'')\<rparr>\<rparr>)
      \<and> (e_attr (attributes (edges g ! i)) \<noteq> Some False \<longrightarrow>
           edges (fst (display_values r g)) ! i = edges g ! i))"
proof -
  have n: "map fst (nodes (fst (display_values r g))) = map fst (nodes g)"
    by (simp add: nodes_display_values display_node_exact comp_def)
  have e: "map key (edges (fst (display_values r g))) = map key (edges g)"
    by (simp add: edges_display_values display_edge_exact comp_def)
  have ns: "\<forall>i < length (nodes g).
        (n_isExtraData (snd (nodes g ! i)) = Some True \<and> n_hidden (snd (nodes g ! i)) \<noteq> None \<longrightarrow>
           snd (nodes (fst (display_values r g)) ! i)
             = (snd (nodes g ! i))\<lparr>n_hidden := Some (\<not> r < threshold)\<rparr>)
      \<and> (n_isExtraData (snd (nodes g ! i)) \<noteq> Some True \<or> n_hidden (snd (nodes g ! i)) = None \<longrightarrow>
           nodes (fst (display_values r g)) ! i = nodes g ! i)"
    by (auto simp add: nodes_display_values display_node_exact)
  have es: "\<forall>i < length (edges g).
        (e_attr (attributes (edges g ! i)) = Some False \<longrightarrow>
           edges (fst (display_values r g)) ! i
             = (edges g ! i)\<lparr>attributes := (attributes (edges g ! i))
                 \<lparr>e_color := Some (if r < threshold then ''#FFFFFF'' else ''#000000'')\<rparr>\<rparr>)
      \<and> (e_attr (attributes (edges g ! i)) \<noteq> Some False \<longrightarrow>
           edges (fst (display_values r g)) ! i = edges g ! i)"
    by (simp add: edges_display_values display_edge_exact)
  from n e ns es show ?thesis by blast
qed

theorem display_values_threshold_witness:
  "ratio_0_2999 < threshold
   \<and> n_hidden (snd (nodes lod_graph ! 0)) = Some True
   \<and> n_hidden (snd (nodes (fst (display_values ratio_0_2999 lod_graph)) ! 0)) = Some False
   \<and> nodes (fst (display_values ratio_0_2999 lod_graph)) ! 1 = nodes lod_graph ! 1
   \<and> e_color (attributes (edges (fst (display_values ratio_0_2999 lod_graph)) ! 0)) = Some ''#FFFFFF''
   \<and> n_hidden (snd (nodes lod_graph ! 2)) = Some False
   \<and> n_hidden (snd (nodes (fst (display_values threshold lod_graph)) ! 2)) = Some True
   \<and> nodes (fst (display_values threshold lod_graph)) ! 1 = nodes lod_graph ! 1
   \<and> e_color (attributes (edges (fst (display_values threshold lod_graph)) ! 0)) = Some ''#000000''"
proof -
  note low = display_values_threshold [of ratio_0_2999 lod_graph]
  note high = display_values_threshold [of threshold lod_graph]
  have lt: "ratio_0_2999 < threshold"
    by (simp add: ratio_0_2999_def threshold_def)
  have n0: "n_hidden (snd (nodes (fst (display_values ratio_0_2999 lod_graph)) ! 0)) = Some False"
    using low [THEN conjunct2, THEN conjunct2, THEN conjunct1, rule_format, of 0] lt
    by (simp add: lod_graph_def empty_node_attrs_def)
  have y0: "nodes (fst (display_values ratio_0_2999 lod_graph)) ! 1 = nodes lod_graph ! 1"
    using low [THEN conjunct2, THEN conjunct2, THEN conjunct1, rule_format, of 1]
    by (simp add: lod_graph_def empty_node_attrs_def)
  have e0: "e_color (attributes (edges (fst (display_values ratio_0_2999 lod_graph)) ! 0)) = Some ''#FFFFFF''"
    using low [THEN conjunct2, THEN conjunct2, THEN conjunct2, rule_format, of 0] lt
    by (simp add: lod_graph_def empty_edge_attrs_def)
  have n2: "n_hidden (snd (nodes (fst (display_values threshold lod_graph)) ! 2)) = Some True"
    using high [THEN conjunct2, THEN conjunct2, THEN conjunct1, rule_format, of 2]
    by (simp add: lod_graph_def empty_node_attrs_def)
  have y1: "nodes (fst (display_values threshold lod_graph)) ! 1 = nodes lod_graph ! 1"
    using high [THEN conjunct2, THEN conjunct2, THEN conjunct1, rule_format, of 1]
    by (simp add: lod_graph_def empty_node_attrs_def)
  have e1: "e_color (attributes (edges (fst (display_values threshold lod_graph)) ! 0)) = Some ''#000000''"
    using high [THEN conjunct2, THEN conjunct2, THEN conjunct2, rule_format, of 0]
    by (simp add: lod_graph_def empty_edge_attrs_def)
  have pre: "n_hidden (snd (nodes lod_graph ! 0)) = Some True \<and> n_hidden (snd (nodes lod_graph ! 2)) = Some False"
    by (simp add: lod_graph_def empty_node_attrs_def)
  from lt n0 y0 e0 n2 y1 e1 pre show ?thesis by simp
qed

lemma display_node_idem:
  "fst (display_node r (fst (display_node r na))) = fst (display_node r na)
   \<and> snd (display_node r (fst (display_node r na))) = []"
  by (cases na) (auto simp add: display_node_def Let_def loose_eq_def)

lemma display_edge_idem:
  "fst (display_edge r (fst (display_edge r e))) = fst (display_edge r e)"
  by (simp add: display_edge_def Let_def loose_eq_def)

lemma display_edge_writes: "filter is_node_write (snd (display_edge r e)) = []"
  by (simp add: display_edge_def Let_def)

lemma concat_all_nil: "(\<And>x. x \<in> set xs \<Longrightarrow> f x = []) \<Longrightarrow> concat (map f xs) = []"
  by (induction xs) auto

lemma filter_concat_nil:
  "(\<And>x. x \<in> set xs \<Longrightarrow> filter P (f x) = []) \<Longrightarrow> filter P (concat (map f xs)) = []"
  by (induction xs) auto

lemma edge_log_structural:
  "concat (map (\<lambda>e. snd (display_edge r e)) es)
     = map (\<lambda>e. SetEdgeColor (key e) (if r < threshold then ''#FFFFFF'' else ''#000000''))
         (filter (\<lambda>e. e_attr (attributes e) = Some False) es)"
  by (induction es) (simp_all add: display_edge_log)

lemma display_values_log:
  "snd (display_values r g)
     = concat (map (\<lambda>na. snd (display_node r na)) (nodes g))
       @ concat (map (\<lambda>e. snd (display_edge r e)) (edges g))"
  by (simp add: display_values_def Let_def comp_def)

lemma second_node_log:
  "concat (map (\<lambda>na. snd (display_node r na)) (nodes (fst (display_values r g)))) = []"
  by (simp add: nodes_display_values comp_def display_node_idem concat_all_nil)

lemma stored_colour:
  "list_all (\<lambda>e. e_color (attributes e) = Some (if r < threshold then ''#FFFFFF'' else ''#000000''))
     (filter (\<lambda>e. e_attr (attributes e) = Some False) (edges (fst (display_values r g))))"
  by (auto simp add: list_all_iff edges_display_values display_edge_exact split: if_splits)

text \<open>
  Claim C6, as stated, says that a second invocation writes no attribute. The edge loop
  has no guard on the current colour: the second invocation writes the colour of the
  structural edge again.
\<close>

theorem display_values_rewrites_edges_counterexample:
  "snd (display_values (1 / 2) (fst (display_values (1 / 2) lod_graph)))
     = [SetEdgeColor (Named ''e1'') ''#000000'']
   \<and> snd (display_values (1 / 2) (fst (display_values (1 / 2) lod_graph))) \<noteq> []"
  by (simp add: lod_graph_def display_values_def display_node_def display_edge_def
        loose_eq_def threshold_def empty_node_attrs_def empty_edge_attrs_def Let_def)

text \<open>
  Claim C6, amended. At a fixed ratio a second invocation of the toggle leaves the graph
  as the first invocation left it and writes no node attribute. Its writes are exactly
  one colour write for every edge with \<^verbatim>\<open>attr == false\<close>, in the order of the edges, and
  the colour written is the colour that the edge already has.
\<close>

theorem display_values_idempotent:
  "fst (display_values r (fst (display_values r g))) = fst (display_values r g)
   \<and> filter is_node_write (snd (display_values r (fst (display_values r g)))) = []
   \<and> snd (display_values r (fst (display_values r g)))
       = map (\<lambda>e. SetEdgeColor (key e) (if r < threshold then ''#FFFFFF'' else ''#000000''))
           (filter (\<lambda>e. e_attr (attributes e) = Some False) (edges (fst (display_values r g))))
   \<and> list_all (\<lambda>e. e_color (attributes e) = Some (if r < threshold then ''#FFFFFF'' else ''#000000''))
       (filter (\<lambda>e. e_attr (attributes e) = Some False) (edges (fst (display_values r g))))"
proof -
  have 1: "fst (display_values r (fst (display_values r g))) = fst (display_values r g)"
    by (simp add: display_values_def Let_def comp_def display_node_idem display_edge_idem)
  have 3: "snd (display_values r (fst (display_values r g)))
       = map (\<lambda>e. SetEdgeColor (key e) (if r < threshold then ''#FFFFFF'' else ''#000000''))
           (filter (\<lambda>e. e_attr (attributes e) = Some False) (edges (fst (display_values r g))))"
    by (simp only: display_values_log [of r "fst (display_values r g)"] second_node_log
          edge_log_structural append_Nil)
  have 2: "filter is_node_write (snd (display_values r (fst (display_values r g)))) = []"
    unfolding 3 by (simp add: filter_empty_conv)
  from 1 2 3 stored_colour [of r g] show ?thesis by blast
qed

theorem display_values_idempotent_witness:
  "fst (display_values (1 / 2) (fst (display_values (1 / 2) lod_graph)))
     = fst (display_values (1 / 2) lod_graph)
   \<and> map e_color (map attributes (edges (fst (display_values (1 / 2) lod_graph))))
       = [Some ''#000000'']
   \<and> snd (display_values (1 / 2) (fst (display_values (1 / 2) lod_graph)))
       = map (\<lambda>e. SetEdgeColor (key e) ''#000000'') (edges (fst (display_values (1 / 2) lod_graph)))"
proof -
  have es: "edges (fst (display_values (1 / 2) lod_graph))
      = [\<lparr>key = Named ''e1'', source = ''x'', target = ''y'', undirected = False,
          attributes = empty_edge_attrs\<lparr>e_attr := Some False, e_color := Some ''#000000''\<rparr>\<rparr>]"
    by (simp add: edges_display_values display_edge_exact lod_graph_def threshold_def
          empty_edge_attrs_def)
  from display_values_idempotent [of "1 / 2" lod_graph] es
  show ?thesis by (simp add: threshold_def empty_edge_attrs_def)
qed

section \<open>Properties of the graph model\<close>

lemma free_edge_id_ge: "n \<le> free_edge_id es n"
proof (induction es n rule: free_edge_id.induct)
  case (1 es n)
  show ?case
  proof (cases "Generated n \<in> key ` set es")
    case True
    with 1 have "Suc n \<le> free_edge_id es (Suc n)" by simp
    with True show ?thesis by (subst free_edge_id.simps) simp
  next
    case False
    then show ?thesis by (subst free_edge_id.simps) simp
  qed
qed

lemma free_edge_id_fresh: "Generated (free_edge_id es n) \<notin> key ` set es"
proof (induction es n rule: free_edge_id.induct)
  case (1 es n)
  show ?case
  proof (cases "Generated n \<in> key ` set es")
    case True
    with 1 have "Generated (free_edge_id es (Suc n)) \<notin> key ` set es" by simp
    with True show ?thesis by (subst free_edge_id.simps) simp
  next
    case False
    then show ?thesis by (subst free_edge_id.simps) simp
  qed
qed

lemma gen_in_mono: "gen_in lo hi k \<Longrightarrow> lo' \<le> lo \<Longrightarrow> hi \<le> hi' \<Longrightarrow> gen_in lo' hi' k"
  by (cases k) auto



lemma addEdge_Inr:
  assumes "addEdge g s t a = Inr (k, g')"
  shows "nodes g' = nodes g"
    and "edges g' = edges g @ [\<lparr>key = k, source = to_string s, target = to_string t,
                                undirected = False, attributes = a\<rparr>]"
    and "gen_in (edgeId g) (edgeId g') k"
    and "k \<notin> key ` set (edges g)"
    and "edgeId g \<le> edgeId g'"
    and "hasNode g (to_string s)" and "hasNode g (to_string t)"
  using assms free_edge_id_ge [of "edgeId g" "edges g"] free_edge_id_fresh [of "edges g" "edgeId g"]
  by (auto simp add: addEdge_def add_edge_def Let_def split: if_splits)


lemma readd_edges_ok:
  "readd_edges rs g = (g', None) \<Longrightarrow>
   \<exists>R. nodes g' = nodes g \<and> edges g' = edges g @ R \<and> edgeId g \<le> edgeId g'
      \<and> map shape R = map removed_shape rs
      \<and> (\<forall>e \<in> set R. \<not> undirected e \<and> gen_in (edgeId g) (edgeId g') (key e))"
proof (induction rs arbitrary: g)
  case Nil
  then show ?case by simp
next
  case (Cons r rs)
  from Cons.prems obtain k g1 where
    ae: "addEdge g (Some (re_source r)) (Some (re_target r)) (re_attributes r) = Inr (k, g1)"
    and rest: "readd_edges rs g1 = (g', None)"
    by (auto split: sum.splits)
  from Cons.IH [OF rest] obtain R where
    R: "nodes g' = nodes g1" "edges g' = edges g1 @ R" "edgeId g1 \<le> edgeId g'"
       "map shape R = map removed_shape rs"
       "\<forall>e \<in> set R. \<not> undirected e \<and> gen_in (edgeId g1) (edgeId g') (key e)"
    by blast
  let ?e = "\<lparr>key = k, source = re_source r, target = re_target r,
             undirected = False, attributes = re_attributes r\<rparr>"
  note A = addEdge_Inr [OF ae]
  have "nodes g' = nodes g" using R(1) A(1) by simp
  moreover have "edges g' = edges g @ (?e # R)" using R(2) A(2) by simp
  moreover have "edgeId g \<le> edgeId g'" using A(5) R(3) by simp
  moreover have "map shape (?e # R) = map removed_shape (r # rs)"
    using R(4) by (simp add: shape_def removed_shape_def)
  moreover have "\<forall>e \<in> set (?e # R). \<not> undirected e \<and> gen_in (edgeId g) (edgeId g') (key e)"
    using A(3) A(5) R(3) R(5) by (auto intro: gen_in_mono)
  ultimately show ?case by blast
qed



lemma findEdge_callback_Some:
  "\<exists>bs'. findEdge_callback N e (bs, Some rs) = Inr (bs', Some (rs @ [record_of e]))"
  by (simp add: findEdge_callback_def Let_def record_of_def)

lemma forEach_edge_records:
  "\<exists>bs'. forEach_edge (findEdge_callback N) es (bs, Some rs) = Inr (bs', Some (rs @ map record_of es))"
proof (induction es arbitrary: bs rs)
  case Nil
  then show ?case by simp
next
  case (Cons e es)
  obtain bs1 where c: "findEdge_callback N e (bs, Some rs) = Inr (bs1, Some (rs @ [record_of e]))"
    using findEdge_callback_Some by blast
  from Cons.IH [of bs1 "rs @ [record_of e]"] c show ?case by simp
qed


lemma fst_set_move_to_end:
  "map_of ns n = Some a \<Longrightarrow> fst ` set (filter (\<lambda>p. fst p \<noteq> n) ns @ [(n, a)]) = fst ` set ns"
proof -
  assume "map_of ns n = Some a"
  then have "(n, a) \<in> set ns" by (rule map_of_SomeD)
  then have "n \<in> fst ` set ns" by force
  then show ?thesis by force
qed






section \<open>Properties of remove and add back\<close>

lemmas eval_defs = rightClickNode_def initial_contextState_def malopRemoveBtn_click_def malopAddBtn_click_def
  getNodeAttributes_def incident_def hasExtremity_def findEdge_callback_def loose_eq_def update_bridge_def
  addEdge_def add_edge_def hasNode_def dropNode_def dropEdge_def addNode_def find_edge_def
  free_edge_id.simps Let_def

lemmas input_defs = plain_edge_attrs_def structural_attrs_def empty_edge_attrs_def
  empty_node_attrs_def

text \<open>
  Claim C10. When no removal is pending (the field \<^verbatim>\<open>removedNode\<close> of the buffer is unset),
  the add-back handler returns without an exception and leaves the graph, the buffer and
  the context menu as they were.
\<close>

theorem malopAddBtn_click_noop:
  assumes "removedNode (contextState s) = None"
  shows "malopAddBtn_click s = (s, None)"
  using assms by (simp add: malopAddBtn_click_def)

theorem malopAddBtn_click_noop_witness:
  "removedNode (contextState cycle_app) = None \<and> malopAddBtn_click cycle_app = (cycle_app, None)"
  using malopAddBtn_click_noop [of cycle_app]
  by (simp add: cycle_app_def rightClickNode_def initial_contextState_def)

text \<open>
  Claim C8 at a failing input. After one complete remove and add-back of \<open>n\<close>, the
  add-back has set the two lists of the buffer to \<^verbatim>\<open>undefined\<close> instead of the empty
  arrays of the initial state. The next remove of \<open>n\<close> sets \<^verbatim>\<open>removedNode\<close> and
  \<^verbatim>\<open>removedNodeAttributes\<close>, then raises a \<open>TypeError\<close> on \<^verbatim>\<open>revmovedEdges.push\<close>: the
  buffer is left with two fields set and two unset, and the node is still in the graph.
\<close>

theorem removal_after_add_back_leaves_partial_buffer:
  "snd (malopRemoveBtn_click cycle_app) = None
   \<and> malopAddBtn_click (fst (malopRemoveBtn_click cycle_app)) =
       (\<lparr>graph = \<lparr>nodes = [(''a'', empty_node_attrs), (''n'', empty_node_attrs)],
          edges = [\<lparr>key = Generated 0, source = ''a'', target = ''n'', undirected = False,
                     attributes = plain_edge_attrs\<rparr>],
          edgeId = 1\<rparr>,
         contextState = \<lparr>cs_selectedNode = Some ''n'', removedNode = None,
           removedNodeAttributes = None, revmovedEdges = None, newEdges = None\<rparr>,
         contextMenuVisible = False\<rparr>, None)
   \<and> malopRemoveBtn_click (fst (malopAddBtn_click (fst (malopRemoveBtn_click cycle_app)))) =
       (\<lparr>graph = \<lparr>nodes = [(''a'', empty_node_attrs), (''n'', empty_node_attrs)],
          edges = [\<lparr>key = Generated 0, source = ''a'', target = ''n'', undirected = False,
                     attributes = plain_edge_attrs\<rparr>],
          edgeId = 1\<rparr>,
         contextState = \<lparr>cs_selectedNode = Some ''n'', removedNode = Some ''n'',
           removedNodeAttributes = Some empty_node_attrs, revmovedEdges = None,
           newEdges = None\<rparr>,
         contextMenuVisible = False\<rparr>, Some TypeError)"
  by (simp add: cycle_app_def cycle_graph_def plain_edge_attrs_def empty_edge_attrs_def
        empty_node_attrs_def eval_defs)

text \<open>
  Claim C2 at a failing input. The node \<open>n\<close> has exactly one structural edge, \<open>n \<rightarrow> a\<close>
  under label \<open>L\<close>. The entry for \<open>L\<close> keeps its target undefined, \<^verbatim>\<open>addEdge\<close> coerces it to
  the node key \<^verbatim>\<open>undefined\<close> and raises: the handler ends before \<^verbatim>\<open>dropNode\<close>, so \<open>n\<close> is
  not removed at all.
\<close>

theorem remove_single_structural_edge_raises:
  "incident single_graph ''n'' =
     [\<lparr>key = Named ''e1'', source = ''n'', target = ''a'', undirected = False,
        attributes = structural_attrs\<rparr>]
   \<and> e_attr structural_attrs = Some False
   \<and> malopRemoveBtn_click single_app =
       (\<lparr>graph = single_graph,
         contextState = \<lparr>cs_selectedNode = Some ''n'', removedNode = Some ''n'',
           removedNodeAttributes = Some empty_node_attrs,
           revmovedEdges = Some [\<lparr>re_source = ''n'', re_target = ''a'',
                                   re_attributes = structural_attrs\<rparr>],
           newEdges = Some []\<rparr>,
         contextMenuVisible = True\<rparr>, Some NotFoundGraphError)
   \<and> hasNode (graph (fst (malopRemoveBtn_click single_app))) ''n''"
  by (simp add: single_app_def single_graph_def structural_attrs_def empty_edge_attrs_def
        empty_node_attrs_def eval_defs)







subsection \<open>When the round trip runs to completion\<close>

text \<open>
  The two handlers of the round trip raise no exception when the graph is well formed,
  the two lists of the buffer are empty arrays and the structural edges of the selected
  node are paired: every entry of \<^verbatim>\<open>newEdges\<close> then has both endpoints, and they are nodes
  other than the selected one.
\<close>

lemma bridges_inv_Nil: "bridges_inv N [] []"
  by (simp add: bridges_inv_def)

lemma map_of_update_bridge:
  "map_of (update_bridge l f bs) l' = (if l' = l then map_option f (map_of bs l') else map_of bs l')"
  by (induction bs) (auto simp add: update_bridge_def)

lemma map_fst_update_bridge: "map fst (update_bridge l f bs) = map fst bs"
  by (induction bs) (auto simp add: update_bridge_def)

lemma callback_not_structural:
  "\<not> structural e \<Longrightarrow>
   findEdge_callback N e (bs, Some rs) = Inr (bs, Some (rs @ [record_of e]))"
  by (simp add: findEdge_callback_def Let_def structural_def record_of_def)

lemma callback_structural:
  assumes "structural e" and "findEdge_callback N e (bs, Some rs) = Inr (bs', r')"
  shows "map_of bs' l =
      (if l = label_of e
       then Some ((case map_of bs l of
                     None \<Rightarrow> \<lparr>b_source = None, b_target = None, b_attributes = attributes e\<rparr>
                   | Some b \<Rightarrow> b)
                  \<lparr>b_source := (if source e = N then Some (target e)
                                else b_source (case map_of bs l of
                     None \<Rightarrow> \<lparr>b_source = None, b_target = None, b_attributes = attributes e\<rparr>
                   | Some b \<Rightarrow> b)),
                   b_target := (if target e = N then Some (source e)
                                else b_target (case map_of bs l of
                     None \<Rightarrow> \<lparr>b_source = None, b_target = None, b_attributes = attributes e\<rparr>
                   | Some b \<Rightarrow> b))\<rparr>)
       else map_of bs l)"
    and "distinct (map fst bs) \<Longrightarrow> distinct (map fst bs')"
proof -
  let ?l = "label_of e"
  let ?bs1 = "if ?l \<notin> fst ` set bs
              then bs @ [(?l, \<lparr>b_source = None, b_target = None, b_attributes = attributes e\<rparr>)]
              else bs"
  let ?bs2 = "if source e = N then update_bridge ?l (\<lambda>b. b\<lparr>b_source := Some (target e)\<rparr>) ?bs1 else ?bs1"
  let ?bs3 = "if target e = N then update_bridge ?l (\<lambda>b. b\<lparr>b_target := Some (source e)\<rparr>) ?bs2 else ?bs2"
  from assms have bs': "bs' = ?bs3"
    by (simp add: findEdge_callback_def Let_def structural_def label_of_def loose_eq_def
          cong: if_cong)
  have none: "(?l \<notin> fst ` set bs) = (map_of bs ?l = None)"
    by (simp add: map_of_eq_None_iff)
  show "map_of bs' l =
      (if l = label_of e
       then Some ((case map_of bs l of
                     None \<Rightarrow> \<lparr>b_source = None, b_target = None, b_attributes = attributes e\<rparr>
                   | Some b \<Rightarrow> b)
                  \<lparr>b_source := (if source e = N then Some (target e)
                                else b_source (case map_of bs l of
                     None \<Rightarrow> \<lparr>b_source = None, b_target = None, b_attributes = attributes e\<rparr>
                   | Some b \<Rightarrow> b)),
                   b_target := (if target e = N then Some (source e)
                                else b_target (case map_of bs l of
                     None \<Rightarrow> \<lparr>b_source = None, b_target = None, b_attributes = attributes e\<rparr>
                   | Some b \<Rightarrow> b))\<rparr>)
       else map_of bs l)"
    unfolding bs' none
    by (cases "map_of bs ?l")
       (auto simp add: map_of_update_bridge map_add_def split: option.splits)
  assume d: "distinct (map fst bs)"
  then have "distinct (map fst ?bs1)" by auto
  then show "distinct (map fst bs')"
    unfolding bs' by (simp add: map_fst_update_bridge)
qed

lemma bridges_inv_step:
  assumes inv: "bridges_inv N es bs"
    and cb: "findEdge_callback N e (bs, Some rs) = Inr (bs', r')"
  shows "bridges_inv N (es @ [e]) bs'"
proof (cases "structural e")
  case False
  with cb have "bs' = bs" by (simp add: callback_not_structural)
  with inv False show ?thesis
    by (simp add: bridges_inv_def ball_Un bex_Un cong: option.case_cong)
next
  case True
  note m = callback_structural(1) [OF True cb]
  from inv have d: "distinct (map fst bs')"
    using callback_structural(2) [OF True cb] by (simp add: bridges_inv_def)
  from inv have I: "\<And>l. case map_of bs l of
            None \<Rightarrow> (\<forall>e \<in> set es. structural e \<longrightarrow> label_of e \<noteq> l)
          | Some b \<Rightarrow>
              (b_source b = None \<longrightarrow> (\<forall>e \<in> set es. structural e \<and> label_of e = l \<longrightarrow> source e \<noteq> N))
            \<and> (\<forall>x. b_source b = Some x \<longrightarrow> (\<exists>e \<in> set es. structural e \<and> source e = N \<and> target e = x))
            \<and> (b_target b = None \<longrightarrow> (\<forall>e \<in> set es. structural e \<and> label_of e = l \<longrightarrow> target e \<noteq> N))
            \<and> (\<forall>x. b_target b = Some x \<longrightarrow> (\<exists>e \<in> set es. structural e \<and> target e = N \<and> source e = x))
            \<and> (\<exists>e \<in> set es. structural e \<and> label_of e = l)"
    by (simp add: bridges_inv_def)
  have "case map_of bs' l of
            None \<Rightarrow> (\<forall>e' \<in> set (es @ [e]). structural e' \<longrightarrow> label_of e' \<noteq> l)
          | Some b \<Rightarrow>
              (b_source b = None \<longrightarrow> (\<forall>e' \<in> set (es @ [e]). structural e' \<and> label_of e' = l \<longrightarrow> source e' \<noteq> N))
            \<and> (\<forall>x. b_source b = Some x \<longrightarrow> (\<exists>e' \<in> set (es @ [e]). structural e' \<and> source e' = N \<and> target e' = x))
            \<and> (b_target b = None \<longrightarrow> (\<forall>e' \<in> set (es @ [e]). structural e' \<and> label_of e' = l \<longrightarrow> target e' \<noteq> N))
            \<and> (\<forall>x. b_target b = Some x \<longrightarrow> (\<exists>e' \<in> set (es @ [e]). structural e' \<and> target e' = N \<and> source e' = x))
            \<and> (\<exists>e' \<in> set (es @ [e]). structural e' \<and> label_of e' = l)" for l
  proof (cases "l = label_of e")
    case False
    with m [of l] I [of l] show ?thesis
      by (auto split: option.splits)
  next
    case l: True
    show ?thesis
    proof (cases "map_of bs l")
      case None
      with m [of l] I [of l] l True show ?thesis
        by (auto split: option.splits)
    next
      case (Some b)
      with m [of l] I [of l] l True show ?thesis
        by (auto split: option.splits)
    qed
  qed
  with d show ?thesis by (simp add: bridges_inv_def)
qed


lemma forEach_edge_inv:
  "bridges_inv N es0 bs \<Longrightarrow>
   forEach_edge (findEdge_callback N) es (bs, Some rs) = Inr (bs', r') \<Longrightarrow>
   bridges_inv N (es0 @ es) bs'"
proof (induction es arbitrary: es0 bs rs)
  case Nil
  then show ?case by simp
next
  case (Cons e es)
  obtain bs1 where c: "findEdge_callback N e (bs, Some rs) = Inr (bs1, Some (rs @ [record_of e]))"
    using findEdge_callback_Some by blast
  with Cons.prems(2) have rest:
    "forEach_edge (findEdge_callback N) es (bs1, Some (rs @ [record_of e])) = Inr (bs', r')"
    by simp
  from bridges_inv_step [OF Cons.prems(1) c] have "bridges_inv N (es0 @ [e]) bs1" .
  from Cons.IH [OF this rest] show ?case by simp
qed

lemma bridges_inv_paired:
  assumes inv: "bridges_inv N (incident g N) bs" and p: "paired g N" and wf: "wf_endpoints g"
    and lb: "lb \<in> set bs"
  shows "\<exists>x y. b_source (snd lb) = Some x \<and> b_target (snd lb) = Some y
           \<and> hasNode g x \<and> hasNode g y \<and> x \<noteq> N \<and> y \<noteq> N"
proof -
  let ?I = "incident g N"
  from inv have d: "distinct (map fst bs)" by (simp add: bridges_inv_def)
  with lb have m: "map_of bs (fst lb) = Some (snd lb)" by simp
  from inv have "\<forall>l. case map_of bs l of
            None \<Rightarrow> (\<forall>e \<in> set ?I. structural e \<longrightarrow> label_of e \<noteq> l)
          | Some b \<Rightarrow>
              (b_source b = None \<longrightarrow> (\<forall>e \<in> set ?I. structural e \<and> label_of e = l \<longrightarrow> source e \<noteq> N))
            \<and> (\<forall>x. b_source b = Some x \<longrightarrow> (\<exists>e \<in> set ?I. structural e \<and> source e = N \<and> target e = x))
            \<and> (b_target b = None \<longrightarrow> (\<forall>e \<in> set ?I. structural e \<and> label_of e = l \<longrightarrow> target e \<noteq> N))
            \<and> (\<forall>x. b_target b = Some x \<longrightarrow> (\<exists>e \<in> set ?I. structural e \<and> target e = N \<and> source e = x))
            \<and> (\<exists>e \<in> set ?I. structural e \<and> label_of e = l)"
    by (simp add: bridges_inv_def)
  from this [rule_format, of "fst lb"] m have
    s0: "b_source (snd lb) = None \<longrightarrow>
           (\<forall>e \<in> set ?I. structural e \<and> label_of e = fst lb \<longrightarrow> source e \<noteq> N)"
    and s1: "\<forall>x. b_source (snd lb) = Some x \<longrightarrow>
           (\<exists>e \<in> set ?I. structural e \<and> source e = N \<and> target e = x)"
    and t0: "b_target (snd lb) = None \<longrightarrow>
           (\<forall>e \<in> set ?I. structural e \<and> label_of e = fst lb \<longrightarrow> target e \<noteq> N)"
    and t1: "\<forall>x. b_target (snd lb) = Some x \<longrightarrow>
           (\<exists>e \<in> set ?I. structural e \<and> target e = N \<and> source e = x)"
    and ex: "\<exists>e \<in> set ?I. structural e \<and> label_of e = fst lb"
    by simp_all
  from p have P: "\<And>e. e \<in> set ?I \<Longrightarrow> structural e \<Longrightarrow>
        source e \<noteq> target e
      \<and> (\<exists>e1 \<in> set ?I. structural e1 \<and> label_of e1 = label_of e \<and> source e1 = N)
      \<and> (\<exists>e2 \<in> set ?I. structural e2 \<and> label_of e2 = label_of e \<and> target e2 = N)"
    by (simp add: paired_def list_all_iff list_ex_iff)
  from wf have W: "\<And>e. e \<in> set ?I \<Longrightarrow> hasNode g (source e) \<and> hasNode g (target e)"
    by (simp add: wf_endpoints_def list_all_iff incident_def)
  from ex obtain e where e: "e \<in> set ?I" "structural e" "label_of e = fst lb" by blast
  from P [OF e(1,2)] e(3) s0 obtain x where x: "b_source (snd lb) = Some x" by force
  from P [OF e(1,2)] e(3) t0 obtain y where y: "b_target (snd lb) = Some y" by force
  from s1 x obtain ex where ex: "ex \<in> set ?I" "structural ex" "source ex = N" "target ex = x"
    by blast
  from t1 y obtain ey where ey: "ey \<in> set ?I" "structural ey" "target ey = N" "source ey = y"
    by blast
  from P [OF ex(1,2)] ex(3,4) have "x \<noteq> N" by auto
  moreover from P [OF ey(1,2)] ey(3,4) have "y \<noteq> N" by auto
  moreover from W [OF ex(1)] ex(4) have "hasNode g x" by simp
  moreover from W [OF ey(1)] ey(4) have "hasNode g y" by simp
  ultimately show ?thesis using x y by blast
qed

lemma addEdge_complete:
  "hasNode g (to_string s) \<Longrightarrow> hasNode g (to_string t) \<Longrightarrow> \<exists>k g'. addEdge g s t a = Inr (k, g')"
  by (simp add: addEdge_def add_edge_def Let_def)

lemma hasNode_same_nodes: "nodes g' = nodes g \<Longrightarrow> hasNode g' = hasNode g"
  by (simp add: hasNode_def fun_eq_iff)

lemma add_bridges_complete:
  assumes "\<forall>lb \<in> set bs. \<exists>x y. b_source (snd lb) = Some x \<and> b_target (snd lb) = Some y
             \<and> hasNode g x \<and> hasNode g y \<and> x \<noteq> N \<and> y \<noteq> N"
  shows "\<exists>g1 B. add_bridges bs g (Some ks) = ((g1, Some (ks @ map key B)), None)
           \<and> nodes g1 = nodes g \<and> edges g1 = edges g @ B
           \<and> (\<forall>e \<in> set B. \<not> hasExtremity e N) \<and> distinct (map key B)
           \<and> key ` set B \<inter> key ` set (edges g) = {}"
  using assms
proof (induction bs arbitrary: g ks)
  case Nil
  show ?case by (auto intro: exI [of _ "[]"])
next
  case (Cons lb bs)
  from Cons.prems obtain x y where xy: "b_source (snd lb) = Some x" "b_target (snd lb) = Some y"
      "hasNode g x" "hasNode g y" "x \<noteq> N" "y \<noteq> N"
    by auto
  from addEdge_complete [of g "Some x" "Some y" "b_attributes (snd lb)"] xy obtain k g' where
    ae: "addEdge g (Some x) (Some y) (b_attributes (snd lb)) = Inr (k, g')"
    by auto
  note A = addEdge_Inr [OF ae]
  let ?e = "\<lparr>key = k, source = x, target = y, undirected = False,
             attributes = b_attributes (snd lb)\<rparr>"
  have same: "hasNode g' = hasNode g" using A(1) by (rule hasNode_same_nodes)
  have "\<forall>lb \<in> set bs. \<exists>x y. b_source (snd lb) = Some x \<and> b_target (snd lb) = Some y
             \<and> hasNode g' x \<and> hasNode g' y \<and> x \<noteq> N \<and> y \<noteq> N"
    using Cons.prems same by simp
  from Cons.IH [OF this, of "ks @ [k]"] obtain g1 B where
    B: "add_bridges bs g' (Some ((ks @ [k]))) = ((g1, Some ((ks @ [k]) @ map key B)), None)"
       "nodes g1 = nodes g'" "edges g1 = edges g' @ B" "\<forall>e \<in> set B. \<not> hasExtremity e N"
       "distinct (map key B)" "key ` set B \<inter> key ` set (edges g') = {}"
    by blast
  have 1: "add_bridges (lb # bs) g (Some ks) = ((g1, Some (ks @ map key (?e # B))), None)"
    using ae B(1) xy(1,2) by simp
  have 2: "edges g1 = edges g @ (?e # B)" using B(3) A(2) by simp
  have 3: "\<forall>e \<in> set (?e # B). \<not> hasExtremity e N"
    using B(4) xy(5,6) by (simp add: hasExtremity_def)
  have 4: "distinct (map key (?e # B))" using B(5,6) A(2) by auto
  have 5: "key ` set (?e # B) \<inter> key ` set (edges g) = {}" using B(6) A(2,4) by auto
  from 1 2 3 4 5 B(2) A(1) show ?case by (intro exI [of _ g1] exI [of _ "?e # B"]) simp
qed

lemma readd_edges_complete:
  "\<forall>r \<in> set rs. hasNode g (re_source r) \<and> hasNode g (re_target r) \<Longrightarrow>
   \<exists>g'. readd_edges rs g = (g', None)"
proof (induction rs arbitrary: g)
  case Nil
  then show ?case by simp
next
  case (Cons r rs)
  from addEdge_complete [of g "Some (re_source r)" "Some (re_target r)" "re_attributes r"] Cons.prems
  obtain k g1 where
    ae: "addEdge g (Some (re_source r)) (Some (re_target r)) (re_attributes r) = Inr (k, g1)"
    by auto
  have "hasNode g1 = hasNode g" using addEdge_Inr(1) [OF ae] by (rule hasNode_same_nodes)
  with Cons.prems have "\<forall>r \<in> set rs. hasNode g1 (re_source r) \<and> hasNode g1 (re_target r)"
    by simp
  from Cons.IH [OF this] ae show ?case by simp
qed

lemma drop_edges_complete:
  "distinct (map key B) \<Longrightarrow> set B \<subseteq> set (edges g) \<Longrightarrow> \<exists>g'. drop_edges (map key B) g = (g', None)"
proof (induction B arbitrary: g)
  case Nil
  then show ?case by simp
next
  case (Cons b B)
  from Cons.prems(2) have "find_edge g (key b) \<noteq> None"
    by (auto simp add: find_edge_def find_None_iff)
  then have d: "dropEdge g (key b) = Inr (g\<lparr>edges := filter (\<lambda>e. key e \<noteq> key b) (edges g)\<rparr>)"
    by (simp add: dropEdge_def)
  have "set B \<subseteq> set (edges (g\<lparr>edges := filter (\<lambda>e. key e \<noteq> key b) (edges g)\<rparr>))"
    using Cons.prems by (auto simp add: image_iff)
  from Cons.IH [OF _ this] Cons.prems(1) d show ?case by simp
qed

lemma round_trip_completes:
  assumes sel: "cs_selectedNode (contextState s) = Some N" and ne: "N \<noteq> []"
    and buf: "revmovedEdges (contextState s) = Some []" "newEdges (contextState s) = Some []"
    and node: "hasNode (graph s) N" and wf: "wf_endpoints (graph s)" and p: "paired (graph s) N"
  shows "\<exists>s1 s2. malopRemoveBtn_click s = (s1, None) \<and> malopAddBtn_click s1 = (s2, None)"
proof -
  let ?g = "graph s" and ?I = "incident (graph s) N"
  from node obtain a where "(N, a) \<in> set (nodes ?g)"
    by (auto simp add: hasNode_def)
  from weak_map_of_SomeI [OF this] obtain attrs where attrs: "map_of (nodes ?g) N = Some attrs"
    by blast
  obtain bs where fe: "forEach_edge (findEdge_callback N) ?I ([], Some [])
      = Inr (bs, Some (map record_of ?I))"
    using forEach_edge_records [of N ?I "[]" "[]"] by auto
  from forEach_edge_inv [OF bridges_inv_Nil fe] have inv: "bridges_inv N ?I bs" by simp
  have good: "\<forall>lb \<in> set bs. \<exists>x y. b_source (snd lb) = Some x \<and> b_target (snd lb) = Some y
             \<and> hasNode ?g x \<and> hasNode ?g y \<and> x \<noteq> N \<and> y \<noteq> N"
    using bridges_inv_paired [OF inv p wf] by blast
  from add_bridges_complete [OF good, of "[]"] obtain g1 B where
    B: "add_bridges bs ?g (Some []) = ((g1, Some (map key B)), None)"
       "nodes g1 = nodes ?g" "edges g1 = edges ?g @ B" "\<forall>e \<in> set B. \<not> hasExtremity e N"
       "distinct (map key B)"
    by auto
  let ?g2 = "g1\<lparr>nodes := filter (\<lambda>p. fst p \<noteq> N) (nodes g1),
                 edges := filter (\<lambda>e. \<not> hasExtremity e N) (edges g1)\<rparr>"
  have dn: "dropNode g1 N = Inr ?g2"
    using node B(2) by (simp add: dropNode_def hasNode_def)
  let ?cs1 = "(contextState s)\<lparr>removedNode := Some N, removedNodeAttributes := Some attrs,
                revmovedEdges := Some (map record_of ?I), newEdges := Some (map key B)\<rparr>"
  let ?s1 = "s\<lparr>graph := ?g2, contextState := ?cs1, contextMenuVisible := False\<rparr>"
  have rem: "malopRemoveBtn_click s = (?s1, None)"
    using sel ne buf attrs fe B(1) dn
    by (simp add: malopRemoveBtn_click_def getNodeAttributes_def Let_def)
  let ?g3 = "?g2\<lparr>nodes := nodes ?g2 @ [(N, attrs)]\<rparr>"
  have an: "addNode ?g2 N (Some attrs) = Inr ?g3"
    by (auto simp add: addNode_def hasNode_def)
  have same: "hasNode ?g3 = hasNode ?g"
    using fst_set_move_to_end [OF attrs] B(2) by (simp add: hasNode_def fun_eq_iff)
  from wf have "\<forall>r \<in> set (map record_of ?I). hasNode ?g (re_source r) \<and> hasNode ?g (re_target r)"
    by (simp add: wf_endpoints_def list_all_iff incident_def record_of_def)
  with same have "\<forall>r \<in> set (map record_of ?I). hasNode ?g3 (re_source r) \<and> hasNode ?g3 (re_target r)"
    by simp
  from readd_edges_complete [OF this] obtain g4 where
    re: "readd_edges (map record_of ?I) ?g3 = (g4, None)" by blast
  from readd_edges_ok [OF re] obtain R where R: "edges g4 = edges ?g3 @ R" by blast
  have "set B \<subseteq> set (edges g4)" using R B(3,4) by auto
  from drop_edges_complete [OF B(5) this] obtain g5 where
    de: "drop_edges (map key B) g4 = (g5, None)" by blast
  have "\<exists>s2. malopAddBtn_click ?s1 = (s2, None)"
    using ne an re de by (simp add: malopAddBtn_click_def Let_def)
  with rem show ?thesis by blast
qed

text \<open>The chain \<open>a \<rightarrow> n \<rightarrow> b\<close> is such a graph.\<close>

lemma chain_graph_paired: "wf_endpoints chain_graph \<and> paired chain_graph ''n''"
  by (simp add: wf_endpoints_def paired_def chain_graph_def incident_def hasExtremity_def
        hasNode_def structural_def label_of_def loose_eq_def input_defs)

section \<open>Properties of the layout selector\<close>

lemma addNode_result:
  "addNode g n a = Inr g' \<Longrightarrow>
   nodes g' = nodes g @ [(n, case a of None \<Rightarrow> empty_node_attrs | Some b \<Rightarrow> b)]
   \<and> edges g' = edges g \<and> edgeId g' = edgeId g"
  by (auto simp add: addNode_def split: if_splits)

lemma import_nodes_result:
  "import_nodes ns g = (g', err) \<Longrightarrow>
   edges g' = edges g \<and> edgeId g' = edgeId g
   \<and> (\<exists>k \<le> length ns. nodes g' = nodes g @ map node_of (take k ns) \<and> (err = None \<longrightarrow> k = length ns))"
proof (induction ns arbitrary: g)
  case Nil
  then show ?case by simp
next
  case (Cons n ns)
  show ?case
  proof (cases "addNode g (sn_key n) (sn_attributes n)")
    case (Inl e)
    with Cons.prems have "g' = g" by simp
    then show ?thesis using Cons.prems Inl by (auto intro: exI [of _ 0])
  next
    case (Inr g1)
    with Cons.prems have rest: "import_nodes ns g1 = (g', err)" by simp
    from Cons.IH [OF rest] obtain k where
      k: "edges g' = edges g1" "edgeId g' = edgeId g1" "k \<le> length ns"
         "nodes g' = nodes g1 @ map node_of (take k ns)" "err = None \<longrightarrow> k = length ns"
      by blast
    from addNode_result [OF Inr] have
      g1: "nodes g1 = nodes g @ [node_of n]" "edges g1 = edges g" "edgeId g1 = edgeId g"
      by (simp_all add: node_of_def)
    have "nodes g' = nodes g @ map node_of (take (Suc k) (n # ns))"
      using k(4) g1(1) by simp
    with k g1 show ?thesis by (intro conjI exI [of _ "Suc k"]) simp_all
  qed
qed

lemma add_edge_result:
  assumes "add_edge g (se_undirected se) (se_key se) (Some (se_source se)) (Some (se_target se))
             (se_attributes se) = Inr (k, g')"
  shows "nodes g' = nodes g \<and> (\<exists>e. edges g' = edges g @ [e] \<and> edge_matches e se)"
  using assms
  by (auto simp add: add_edge_def edge_matches_def Let_def split: if_splits option.splits)

lemma import_edges_result:
  "import_edges es g = (g', err) \<Longrightarrow>
   nodes g' = nodes g
   \<and> (\<exists>E. edges g' = edges g @ E \<and> list_all2 edge_matches E (take (length E) es)
          \<and> (err = None \<longrightarrow> length E = length es))"
proof (induction es arbitrary: g)
  case Nil
  then show ?case by simp
next
  case (Cons se es)
  show ?case
  proof (cases "add_edge g (se_undirected se) (se_key se) (Some (se_source se))
                  (Some (se_target se)) (se_attributes se)")
    case (Inl e)
    with Cons.prems have "g' = g" "err = Some e" by simp_all
    then show ?thesis by (auto intro: exI [of _ "[]"])
  next
    case (Inr kg)
    obtain k g1 where kg: "kg = (k, g1)" by (cases kg)
    with Inr Cons.prems have rest: "import_edges es g1 = (g', err)" by simp
    from Cons.IH [OF rest] obtain E where
      E: "nodes g' = nodes g1" "edges g' = edges g1 @ E"
         "list_all2 edge_matches E (take (length E) es)" "err = None \<longrightarrow> length E = length es"
      by blast
    from add_edge_result [OF Inr [unfolded kg]] obtain e where
      e: "nodes g1 = nodes g" "edges g1 = edges g @ [e]" "edge_matches e se"
      by blast
    have "edges g' = edges g @ (e # E)" using E(2) e(2) by simp
    moreover have "list_all2 edge_matches (e # E) (take (length (e # E)) (se # es))"
      using E(3) e(3) by simp
    moreover have "err = None \<longrightarrow> length (e # E) = length (se # es)" using E(4) by simp
    moreover have "nodes g' = nodes g" using E(1) e(1) by simp
    ultimately show ?thesis by blast
  qed
qed

lemma import_document_result:
  assumes "import_document g d = (g', err)" and "nodes g = []" and "edges g = []"
  shows "nodes g' = take (length (nodes g')) (map node_of (doc_nodes d))
       \<and> list_all2 edge_matches (edges g') (take (length (edges g')) (doc_edges d))
       \<and> (err = None \<longrightarrow> nodes g' = map node_of (doc_nodes d)
                         \<and> length (edges g') = length (doc_edges d))"
proof (cases "import_nodes (doc_nodes d) g")
  case (Pair g1 err1)
  from import_nodes_result [OF Pair] assms(2,3) obtain k where
    k: "edges g1 = []" "k \<le> length (doc_nodes d)" "nodes g1 = map node_of (take k (doc_nodes d))"
       "err1 = None \<longrightarrow> k = length (doc_nodes d)"
    by auto
  have n1: "nodes g1 = take (length (nodes g1)) (map node_of (doc_nodes d))"
    using k(2,3) by (simp add: take_map)
  show ?thesis
  proof (cases err1)
    case (Some e)
    with Pair assms(1) have "g' = g1" "err = Some e" by (simp_all add: import_document_def)
    with n1 k(1) show ?thesis by simp
  next
    case None
    with Pair assms(1) have ie: "import_edges (doc_edges d) g1 = (g', err)"
      by (simp add: import_document_def)
    from import_edges_result [OF ie] k(1) obtain E where
      E: "nodes g' = nodes g1" "edges g' = E" "list_all2 edge_matches E (take (length E) (doc_edges d))"
         "err = None \<longrightarrow> length E = length (doc_edges d)"
      by auto
    from None k(4) k(3) have "nodes g1 = map node_of (doc_nodes d)" by simp
    with E show ?thesis by simp
  qed
qed

text \<open>
  Claim C9. For every value of the selector the change handler imports the selected
  document (\<^verbatim>\<open>userData\<close> for \<open>user\<close>, \<^verbatim>\<open>machineData2\<close> for every other value) into a graph
  without nodes and edges. The nodes of the resulting graph are node records of the
  document and its edges are edge records of the document, in the order of the document;
  a refusal of the import leaves an initial part of them and a completed import all of
  them. Nothing of the previous layout remains.
\<close>

theorem alignmentSelect_change_clears:
  "alignmentSelect_change machineData2 userData opt g
     = import_document \<lparr>nodes = [], edges = [], edgeId = edgeId g\<rparr>
         (if opt = ''user'' then userData else machineData2)
   \<and> (let d = (if opt = ''user'' then userData else machineData2);
          g' = fst (alignmentSelect_change machineData2 userData opt g);
          err = snd (alignmentSelect_change machineData2 userData opt g)
      in nodes g' = take (length (nodes g')) (map node_of (doc_nodes d))
         \<and> list_all2 edge_matches (edges g') (take (length (edges g')) (doc_edges d))
         \<and> (err = None \<longrightarrow> nodes g' = map node_of (doc_nodes d)
                           \<and> length (edges g') = length (doc_edges d)))"
proof -
  have sel: "selected_document machineData2 userData opt
      = (if opt = ''user'' then userData else machineData2)"
    by (simp add: selected_document_def)
  have cl: "clear g = \<lparr>nodes = [], edges = [], edgeId = edgeId g\<rparr>"
    by (simp add: clear_def)
  have eq: "alignmentSelect_change machineData2 userData opt g
     = import_document \<lparr>nodes = [], edges = [], edgeId = edgeId g\<rparr>
         (if opt = ''user'' then userData else machineData2)"
    by (simp add: alignmentSelect_change_def Let_def sel cl)
  have "import_document \<lparr>nodes = [], edges = [], edgeId = edgeId g\<rparr>
         (if opt = ''user'' then userData else machineData2)
      = (fst (alignmentSelect_change machineData2 userData opt g),
         snd (alignmentSelect_change machineData2 userData opt g))"
    using eq by simp
  from import_document_result [OF this] eq show ?thesis
    by (simp add: Let_def)
qed

lemma user_layout_imported:
  "alignmentSelect_change machine_document user_document ''user'' hover_graph = (user_layout, None)"
  by (simp add: alignmentSelect_change_def selected_document_def clear_def import_document_def
        machine_document_def user_document_def user_layout_def hover_graph_def
        addNode_def add_edge_def hasNode_def free_edge_id.simps Let_def input_defs)

theorem alignmentSelect_change_clears_witness:
  "alignmentSelect_change machine_document user_document ''user'' hover_graph = (user_layout, None)
   \<and> fst ` set (nodes hover_graph) = {''h'', ''a'', ''b'', ''c''}
   \<and> nodes user_layout = map node_of (doc_nodes user_document)
   \<and> list_all2 edge_matches (edges user_layout) (doc_edges user_document)"
proof -
  have old: "fst ` set (nodes hover_graph) = {''h'', ''a'', ''b'', ''c''}"
    by (simp add: hover_graph_def)
  have len: "length (edges user_layout) = 2" "length (doc_edges user_document) = 2"
    by (simp_all add: user_layout_def user_document_def)
  from alignmentSelect_change_clears [of machine_document user_document "''user''" hover_graph]
    user_layout_imported old len
  show ?thesis by (simp add: Let_def)
qed

end
